theory Spec2Isabelle
  imports Complex_Main
begin

section \<open>Numeric values\<close>

text \<open>
  The tensors of \<^verbatim>\<open>voice_clip.py\<close> hold single-precision floating-point numbers. A
  value is a real number, an infinity or \<open>NaN\<close>. An arithmetic operation on finite
  values returns the exact result when it lies within the range of the format and the
  infinity of its sign when it lies beyond (\<open>to_float\<close>); on infinities and \<open>NaN\<close> it
  follows IEEE 754. Rounding inside the range, underflow and the sign of zero are left
  out: a zero divisor counts as \<open>+0\<close>.
\<close>

datatype fval = Fin real | PInf | NInf | NaN

text \<open>The largest finite single-precision number, about \<open>3.4028235e38\<close>.\<close>

definition float_max :: real where
  "float_max = (2 - 1 / 2 ^ 23) * 2 ^ 127"

definition to_float :: "real \<Rightarrow> fval" where
  "to_float x = (if float_max < x then PInf else if x < - float_max then NInf else Fin x)"

fun inf_sign :: "bool \<Rightarrow> fval" where
  "inf_sign True = PInf"
| "inf_sign False = NInf"

fun fadd :: "fval \<Rightarrow> fval \<Rightarrow> fval" where
  "fadd (Fin x) (Fin y) = to_float (x + y)"
| "fadd NaN y = NaN"
| "fadd x NaN = NaN"
| "fadd PInf NInf = NaN"
| "fadd NInf PInf = NaN"
| "fadd PInf y = PInf"
| "fadd x PInf = PInf"
| "fadd NInf y = NInf"
| "fadd x NInf = NInf"

fun fneg :: "fval \<Rightarrow> fval" where
  "fneg (Fin x) = Fin (- x)"
| "fneg PInf = NInf"
| "fneg NInf = PInf"
| "fneg NaN = NaN"

definition fsub :: "fval \<Rightarrow> fval \<Rightarrow> fval" where
  "fsub x y = fadd x (fneg y)"

fun fmul :: "fval \<Rightarrow> fval \<Rightarrow> fval" where
  "fmul (Fin x) (Fin y) = to_float (x * y)"
| "fmul NaN y = NaN"
| "fmul x NaN = NaN"
| "fmul PInf (Fin y) = (if y = 0 then NaN else inf_sign (0 < y))"
| "fmul NInf (Fin y) = (if y = 0 then NaN else inf_sign (y < 0))"
| "fmul (Fin x) PInf = (if x = 0 then NaN else inf_sign (0 < x))"
| "fmul (Fin x) NInf = (if x = 0 then NaN else inf_sign (x < 0))"
| "fmul PInf PInf = PInf"
| "fmul NInf NInf = PInf"
| "fmul PInf NInf = NInf"
| "fmul NInf PInf = NInf"

fun fdiv :: "fval \<Rightarrow> fval \<Rightarrow> fval" where
  "fdiv (Fin x) (Fin y) =
     (if y = 0 then (if x = 0 then NaN else inf_sign (0 < x)) else to_float (x / y))"
| "fdiv NaN y = NaN"
| "fdiv x NaN = NaN"
| "fdiv (Fin x) PInf = Fin 0"
| "fdiv (Fin x) NInf = Fin 0"
| "fdiv PInf (Fin y) = inf_sign (0 \<le> y)"
| "fdiv NInf (Fin y) = inf_sign (y < 0)"
| "fdiv x y = NaN"

fun fsqrt :: "fval \<Rightarrow> fval" where
  "fsqrt (Fin x) = (if x < 0 then NaN else Fin (sqrt x))"
| "fsqrt PInf = PInf"
| "fsqrt NInf = NaN"
| "fsqrt NaN = NaN"

fun fexp :: "fval \<Rightarrow> fval" where
  "fexp (Fin x) = to_float (exp x)"
| "fexp PInf = PInf"
| "fexp NInf = Fin 0"
| "fexp NaN = NaN"

fun flog :: "fval \<Rightarrow> fval" where
  "flog (Fin x) = (if x < 0 then NaN else if x = 0 then NInf else Fin (ln x))"
| "flog PInf = PInf"
| "flog NInf = NaN"
| "flog NaN = NaN"

text \<open>The maximum of two values; \<open>NaN\<close> wins, as in the library's \<^verbatim>\<open>max\<close> and \<^verbatim>\<open>clamp\<close>.\<close>

fun fmax :: "fval \<Rightarrow> fval \<Rightarrow> fval" where
  "fmax (Fin x) (Fin y) = Fin (max x y)"
| "fmax NaN y = NaN"
| "fmax x NaN = NaN"
| "fmax PInf y = PInf"
| "fmax x PInf = PInf"
| "fmax NInf y = y"
| "fmax x NInf = x"

text \<open>\<^verbatim>\<open>Tensor.clamp_min(lo)\<close> on one entry.\<close>

definition fclamp_min :: "fval \<Rightarrow> real \<Rightarrow> fval" where
  "fclamp_min x lo = fmax x (Fin lo)"

text \<open>A sum, accumulated from zero in index order.\<close>

definition fsum :: "fval list \<Rightarrow> fval" where
  "fsum xs = foldl fadd (Fin 0) xs"

text \<open>The maximum over a list.\<close>

definition fmaximum :: "fval list \<Rightarrow> fval" where
  "fmaximum xs = foldl fmax NInf xs"

fun is_Fin :: "fval \<Rightarrow> bool" where
  "is_Fin (Fin x) = True"
| "is_Fin x = False"


section \<open>Tensors\<close>

text \<open>
  A tensor is a nested list, outermost axis first. A nested list does not record the
  width of an axis that follows an empty one, so the functions that need such a width
  (a sum over an empty sequence axis, the shape of a token batch with no example) take
  it as an argument, as the tensor's \<^verbatim>\<open>shape\<close> gives it in the program.
\<close>

type_synonym fvec = "fval list"
type_synonym fmat = "fval list list"
type_synonym ftensor3 = "fval list list list"

text \<open>
  An integer tensor of shape \<open>(b, ncols)\<close>: the token ids of a batch of \<open>b\<close> sequences.
  \<^verbatim>\<open>text.shape[0]\<close> is \<open>length (ids text)\<close>, \<^verbatim>\<open>text.shape[1]\<close> is \<open>ncols text\<close>.
\<close>

record tokens =
  ncols :: nat
  ids :: "int list list"

definition wf_tokens :: "tokens \<Rightarrow> bool" where
  "wf_tokens t = list_all (\<lambda>row. length row = ncols t) (ids t)"

text \<open>\<^verbatim>\<open>torch.arange(n)\<close>.\<close>

definition arange :: "nat \<Rightarrow> int list" where
  "arange n = map int [0..<n]"

section \<open>Modules of the numeric library\<close>

text \<open>
  \<^verbatim>\<open>nn.Embedding(num_embeddings, embedding_dim)\<close>: a table with one row per index. The
  lookup accepts the indices \<open>0 \<le> i < num_embeddings\<close> and raises \<^verbatim>\<open>IndexError\<close> on any
  other (\<open>None\<close> here); it returns a new tensor holding copies of the rows.
\<close>

record Embedding =
  num_embeddings :: nat
  embedding_dim :: nat
  weight :: fmat

definition nn_Embedding :: "(nat \<Rightarrow> nat \<Rightarrow> real) \<Rightarrow> nat \<Rightarrow> nat \<Rightarrow> Embedding" where
  "nn_Embedding w0 n d =
     \<lparr>num_embeddings = n, embedding_dim = d,
      weight = map (\<lambda>i. map (\<lambda>j. Fin (w0 i j)) [0..<d]) [0..<n]\<rparr>"

definition in_range :: "Embedding \<Rightarrow> int \<Rightarrow> bool" where
  "in_range e i = (0 \<le> i \<and> i < int (num_embeddings e))"

definition embedding_1d :: "Embedding \<Rightarrow> int list \<Rightarrow> fmat option" where
  "embedding_1d e idx =
     (if list_all (in_range e) idx then Some (map (\<lambda>i. weight e ! nat i) idx) else None)"

definition embedding_2d :: "Embedding \<Rightarrow> int list list \<Rightarrow> ftensor3 option" where
  "embedding_2d e idx =
     (if list_all (list_all (in_range e)) idx
      then Some (map (map (\<lambda>i. weight e ! nat i)) idx) else None)"

text \<open>
  \<^verbatim>\<open>nn.Linear(in_features, out_features, bias=False)\<close>: the weight has shape
  \<open>(out_features, in_features)\<close>, and the module maps \<open>x\<close> to \<open>x W\<^sup>T\<close>.
\<close>

record Linear =
  in_features :: nat
  out_features :: nat
  lin_weight :: fmat

definition nn_Linear :: "(nat \<Rightarrow> nat \<Rightarrow> real) \<Rightarrow> nat \<Rightarrow> nat \<Rightarrow> Linear" where
  "nn_Linear w0 n_in n_out =
     \<lparr>in_features = n_in, out_features = n_out,
      lin_weight = map (\<lambda>i. map (\<lambda>j. Fin (w0 i j)) [0..<n_in]) [0..<n_out]\<rparr>"

definition fdot :: "fvec \<Rightarrow> fvec \<Rightarrow> fval" where
  "fdot a b = fsum (map2 fmul a b)"

definition linear_row :: "Linear \<Rightarrow> fvec \<Rightarrow> fvec" where
  "linear_row l x = map (\<lambda>w. fdot x w) (lin_weight l)"

definition linear :: "Linear \<Rightarrow> fmat \<Rightarrow> fmat" where
  "linear l xs = map (linear_row l) xs"

text \<open>
  \<^verbatim>\<open>F.normalize(t, p=2, dim=-1)\<close>, with the library's default \<^verbatim>\<open>eps = 1e-12\<close>: every
  row \<open>v\<close> becomes \<open>v / max(\<parallel>v\<parallel>\<^sub>2, eps)\<close>, the norm being the square root of the sum
  of the squares.
\<close>

definition normalize_eps :: real where
  "normalize_eps = 1 / 10 ^ 12"

definition norm2 :: "fvec \<Rightarrow> fval" where
  "norm2 v = fsqrt (fsum (map (\<lambda>x. fmul x x) v))"

definition normalize_row :: "fvec \<Rightarrow> fvec" where
  "normalize_row v = (let n = fclamp_min (norm2 v) normalize_eps in map (\<lambda>x. fdiv x n) v)"

definition normalize :: "fmat \<Rightarrow> fmat" where
  "normalize t = map normalize_row t"

text \<open>
  \<^verbatim>\<open>F.cross_entropy(input, target)\<close> with the default mean reduction: \<open>input\<close> has one
  row of class scores per example, \<open>target\<close> one class index per example. It raises when
  the two batch sizes differ or a target is not a class index, and returns the mean
  over the examples of \<open>- log_softmax(row)[target]\<close>. The library computes
  \<open>log_softmax(x)\<^sub>i = log (exp x\<^sub>i / \<Sum>\<^sub>j exp x\<^sub>j)\<close> as \<open>(x\<^sub>i - m) - log (\<Sum>\<^sub>j exp (x\<^sub>j - m))\<close>
  with \<open>m\<close> the maximum of the row, so that no exponential overflows.
\<close>

datatype lookup = TextTokens | TextPositions | SpeechTokens | SpeechPositions

datatype error =
    IndexError lookup
  | BatchSizeMismatch
  | TargetOutOfBounds
  | EinsumShape

definition log_softmax :: "fvec \<Rightarrow> fvec" where
  "log_softmax xs =
     (let m = fmaximum xs;
          s = fsum (map (\<lambda>x. fexp (fsub x m)) xs)
      in map (\<lambda>x. fsub (fsub x m) (flog s)) xs)"

definition fmean :: "fval list \<Rightarrow> fval" where
  "fmean xs = fdiv (fsum xs) (Fin (real (length xs)))"

definition cross_entropy :: "fmat \<Rightarrow> nat list \<Rightarrow> error + fval" where
  "cross_entropy input target =
     (if length input \<noteq> length target then Inl BatchSizeMismatch
      else if \<not> list_all2 (\<lambda>row t. t < length row) input target then Inl TargetOutOfBounds
      else Inr (fmean (map2 (\<lambda>row t. fneg (log_softmax row ! t)) input target)))"

text \<open>
  \<^verbatim>\<open>einsum('n d, n d -> n', a, b)\<close>: the dot product of the rows paired by index. The
  library broadcasts an axis of size 1 and raises when the sizes differ otherwise.
\<close>

definition einsum_nd_nd_n :: "fmat \<Rightarrow> fmat \<Rightarrow> error + fvec" where
  "einsum_nd_nd_n a b =
     (if length a = length b then Inr (map2 fdot a b)
      else if length a = 1 then Inr (map (fdot (hd a)) b)
      else if length b = 1 then Inr (map (\<lambda>r. fdot r (hd b)) a)
      else Inl EinsumShape)"

text \<open>\<^verbatim>\<open>einsum('i d, j d -> i j', a, b)\<close>: every row of \<open>a\<close> against every row of \<open>b\<close>.\<close>

definition einsum_id_jd_ij :: "fmat \<Rightarrow> fmat \<Rightarrow> fmat" where
  "einsum_id_jd_ij a b = map (\<lambda>r. map (fdot r) b) a"

text \<open>\<^verbatim>\<open>Tensor.t()\<close> of a matrix with \<open>n\<close> columns.\<close>

definition t_mat :: "nat \<Rightarrow> fmat \<Rightarrow> fmat" where
  "t_mat n m = map (\<lambda>j. map (\<lambda>row. row ! j) m) [0..<n]"

section \<open>Pooling\<close>

text \<open>
  \<^verbatim>\<open>t.masked_fill(m, 0.)\<close> for \<open>t\<close> of shape \<open>(b, L, d)\<close> and \<open>m\<close> of shape \<open>(b, L, 1)\<close>:
  the vectors at the positions where \<open>m\<close> holds are replaced by zeros, whatever they
  held. The definitions of this section are for a mask of the shape \<open>(b, L)\<close> of the
  tensor, the shape the specification gives a mask; on another shape the library
  broadcasts an axis of size 1 and raises otherwise, which they do not follow (they
  pair positions up to the shorter length). The properties below assume the shape.
\<close>

definition masked_fill :: "ftensor3 \<Rightarrow> bool list list \<Rightarrow> real \<Rightarrow> ftensor3" where
  "masked_fill t m c =
     map2 (\<lambda>ex mrow. map2 (\<lambda>v fill. if fill then map (\<lambda>_. Fin c) v else v) ex mrow) t m"

text \<open>\<^verbatim>\<open>t.sum(dim = 1)\<close> for \<open>t\<close> of shape \<open>(b, L, d)\<close>: the sum of the \<open>L\<close> vectors of each example.\<close>

definition vadd :: "fvec \<Rightarrow> fvec \<Rightarrow> fvec" where
  "vadd a b = map2 fadd a b"

definition sum_dim1 :: "nat \<Rightarrow> ftensor3 \<Rightarrow> fmat" where
  "sum_dim1 d t = map (\<lambda>ex. foldl vadd (replicate d (Fin 0)) ex) t"

text \<open>\<^verbatim>\<open>mask.sum(dim = 1)\<close>: the number of \<open>True\<close> entries of each row.\<close>

definition mask_sum :: "bool list list \<Rightarrow> nat list" where
  "mask_sum msk = map (\<lambda>row. length (filter (\<lambda>m. m) row)) msk"

text \<open>
  \<^verbatim>\<open>
  def masked_mean(t, mask, dim = 1):
      t = t.masked_fill(~mask[:, :, None], 0.)
      return t.sum(dim = 1) / mask.sum(dim = 1)[..., None]
  \<close>
  The first argument \<open>d\<close> is \<^verbatim>\<open>t.shape[2]\<close>.
\<close>

definition masked_mean :: "nat \<Rightarrow> ftensor3 \<Rightarrow> bool list list \<Rightarrow> fmat" where
  "masked_mean d t msk =
     (let t' = masked_fill t (map (map Not) msk) 0
      in map2 (\<lambda>s n. map (\<lambda>x. fdiv x (Fin (real n))) s) (sum_dim1 d t') (mask_sum msk))"

text \<open>\<^verbatim>\<open>t.mean(dim = 1)\<close> for \<open>t\<close> of shape \<open>(b, L, d)\<close>, with \<open>d\<close> given.\<close>

definition mean_dim1 :: "nat \<Rightarrow> ftensor3 \<Rightarrow> fmat" where
  "mean_dim1 d t =
     map2 (\<lambda>s ex. map (\<lambda>x. fdiv x (Fin (real (length ex)))) s) (sum_dim1 d t) t"

section \<open>The model\<close>

text \<open>
  The encoder \<^verbatim>\<open>Transformer\<close> (\<^verbatim>\<open>models.lucidrains.dalle.transformer\<close>) is not part
  of this file: an encoder is any function from a \<open>(b, L, d)\<close> tensor and an optional
  mask to a tensor, and the class is a parameter of the constructor, called with the
  arguments \<^verbatim>\<open>causal, seq_len, dim, depth, heads, rotary_emb\<close>.
\<close>

type_synonym encoder = "ftensor3 \<Rightarrow> bool list list option \<Rightarrow> ftensor3"

type_synonym encoder_class = "bool \<Rightarrow> nat \<Rightarrow> nat \<Rightarrow> nat \<Rightarrow> nat \<Rightarrow> bool \<Rightarrow> encoder"

definition shape_preserving :: "encoder \<Rightarrow> bool" where
  "shape_preserving f =
     (\<forall>x m. length (f x m) = length x \<and> map length (f x m) = map length x)"

record VoiceCLIP =
  text_emb :: Embedding
  text_pos_emb :: Embedding
  text_transformer :: encoder
  to_text_latent :: Linear
  speech_emb :: Embedding
  speech_pos_emb :: Embedding
  speech_transformer :: encoder
  to_speech_latent :: Linear
  temperature :: fval

text \<open>The keyword arguments of \<^verbatim>\<open>VoiceCLIP.__init__\<close>, and their defaults.\<close>

record config =
  dim_text :: nat
  dim_speech :: nat
  dim_latent :: nat
  num_text_tokens :: nat
  text_enc_depth :: nat
  text_seq_len :: nat
  text_heads :: nat
  num_speech_tokens :: nat
  speech_enc_depth :: nat
  speech_heads :: nat
  speech_seq_len :: nat

definition default_config :: config where
  "default_config =
     \<lparr>dim_text = 512, dim_speech = 512, dim_latent = 512, num_text_tokens = 10000,
      text_enc_depth = 6, text_seq_len = 200, text_heads = 8, num_speech_tokens = 8192,
      speech_enc_depth = 6, speech_heads = 8, speech_seq_len = 250\<rparr>"

text \<open>
  The library draws the initial entries of the tables and of the projections at random;
  the draws are the argument \<open>iv\<close>.
\<close>

record init_values =
  iv_text_emb :: "nat \<Rightarrow> nat \<Rightarrow> real"
  iv_text_pos_emb :: "nat \<Rightarrow> nat \<Rightarrow> real"
  iv_to_text_latent :: "nat \<Rightarrow> nat \<Rightarrow> real"
  iv_speech_emb :: "nat \<Rightarrow> nat \<Rightarrow> real"
  iv_speech_pos_emb :: "nat \<Rightarrow> nat \<Rightarrow> real"
  iv_to_speech_latent :: "nat \<Rightarrow> nat \<Rightarrow> real"

definition VoiceCLIP_init :: "encoder_class \<Rightarrow> init_values \<Rightarrow> config \<Rightarrow> VoiceCLIP" where
  "VoiceCLIP_init Transformer iv c =
     \<lparr>text_emb = nn_Embedding (iv_text_emb iv) (num_text_tokens c) (dim_text c),
      text_pos_emb = nn_Embedding (iv_text_pos_emb iv) (text_seq_len c) (dim_text c),
      text_transformer =
        Transformer False (text_seq_len c) (dim_text c) (text_enc_depth c) (text_heads c) False,
      to_text_latent = nn_Linear (iv_to_text_latent iv) (dim_text c) (dim_latent c),
      speech_emb = nn_Embedding (iv_speech_emb iv) (num_speech_tokens c) (dim_speech c),
      speech_pos_emb = nn_Embedding (iv_speech_pos_emb iv) (num_speech_tokens c) (dim_speech c),
      speech_transformer =
        Transformer False (speech_seq_len c) (dim_speech c) (speech_enc_depth c)
          (speech_heads c) False,
      to_speech_latent = nn_Linear (iv_to_speech_latent iv) (dim_speech c) (dim_latent c),
      temperature = Fin 1\<rparr>"

section \<open>The forward pass\<close>

text \<open>
  Lines 68-69 and 71-72: the content lookup, the positional lookup of
  \<^verbatim>\<open>arange(shape[1])\<close>, and the in-place addition that broadcasts the \<open>(L, d)\<close>
  positional rows over the batch.
\<close>

definition iadd_broadcast :: "ftensor3 \<Rightarrow> fmat \<Rightarrow> ftensor3" where
  "iadd_broadcast t p = map (\<lambda>ex. map2 vadd ex p) t"

definition embed :: "lookup \<Rightarrow> lookup \<Rightarrow> Embedding \<Rightarrow> Embedding \<Rightarrow> tokens \<Rightarrow> error + ftensor3" where
  "embed tok_site pos_site emb pos_emb x =
     (case embedding_2d emb (ids x) of
        None \<Rightarrow> Inl (IndexError tok_site)
      | Some e \<Rightarrow>
          (case embedding_1d pos_emb (arange (ncols x)) of
             None \<Rightarrow> Inl (IndexError pos_site)
           | Some p \<Rightarrow> Inr (iadd_broadcast e p)))"

text \<open>
  Lines 74-87: encoders, pooling, projection and normalization. The widths of the
  encoded tensors are those of the embeddings.
\<close>

definition text_pooled :: "VoiceCLIP \<Rightarrow> ftensor3 \<Rightarrow> bool list list option \<Rightarrow> fmat" where
  "text_pooled self text_emb0 text_mask =
     (let enc_text = text_transformer self text_emb0 text_mask;
          d = embedding_dim (text_emb self)
      in case text_mask of
           Some msk \<Rightarrow> masked_mean d enc_text msk
         | None \<Rightarrow> mean_dim1 d enc_text)"

definition speech_pooled :: "VoiceCLIP \<Rightarrow> ftensor3 \<Rightarrow> fmat" where
  "speech_pooled self speech_emb0 =
     (let enc_speech = speech_transformer self speech_emb0 None;
          d = embedding_dim (speech_emb self)
      in mean_dim1 d enc_speech)"

definition text_latents_of :: "VoiceCLIP \<Rightarrow> ftensor3 \<Rightarrow> bool list list option \<Rightarrow> fmat" where
  "text_latents_of self text_emb0 text_mask =
     normalize (linear (to_text_latent self) (text_pooled self text_emb0 text_mask))"

definition speech_latents_of :: "VoiceCLIP \<Rightarrow> ftensor3 \<Rightarrow> fmat" where
  "speech_latents_of self speech_emb0 =
     normalize (linear (to_speech_latent self) (speech_pooled self speech_emb0))"

text \<open>Lines 89-98: the similarity scores, or the contrastive loss.\<close>

datatype result = Scores fvec | Loss fval

definition scale :: "fval \<Rightarrow> fval \<Rightarrow> fval" where
  "scale temp x = fmul x temp"

definition head :: "fval \<Rightarrow> nat \<Rightarrow> fmat \<Rightarrow> fmat \<Rightarrow> bool \<Rightarrow> error + result" where
  "head temperature0 b text_latents speech_latents return_loss =
     (let temp = fexp temperature0 in
      if \<not> return_loss then
        (case einsum_nd_nd_n text_latents speech_latents of
           Inl e \<Rightarrow> Inl e
         | Inr s \<Rightarrow> Inr (Scores (map (scale temp) s)))
      else
        (let sim = map (map (scale temp)) (einsum_id_jd_ij text_latents speech_latents);
             labels = [0..<b]
         in case cross_entropy sim labels of
              Inl e \<Rightarrow> Inl e
            | Inr l1 \<Rightarrow>
                (case cross_entropy (t_mat (length speech_latents) sim) labels of
                   Inl e \<Rightarrow> Inl e
                 | Inr l2 \<Rightarrow> Inr (Loss (fdiv (fadd l1 l2) (Fin 2))))))"

definition forward ::
  "VoiceCLIP \<Rightarrow> tokens \<Rightarrow> tokens \<Rightarrow> bool list list option \<Rightarrow> bool \<Rightarrow> error + result" where
  "forward self text speech_tokens text_mask return_loss =
     (let b = length (ids text) in
      case embed TextTokens TextPositions (text_emb self) (text_pos_emb self) text of
        Inl e \<Rightarrow> Inl e
      | Inr text_emb0 \<Rightarrow>
          (case embed SpeechTokens SpeechPositions (speech_emb self) (speech_pos_emb self)
                  speech_tokens of
             Inl e \<Rightarrow> Inl e
           | Inr speech_emb0 \<Rightarrow>
               head (temperature self) b
                 (text_latents_of self text_emb0 text_mask)
                 (speech_latents_of self speech_emb0)
                 return_loss))"

section \<open>The forward pass on a store\<close>

text \<open>
  Lines 69 and 72 add the positional rows to the looked-up tensor in place
  (\<^verbatim>\<open>text_emb += ...\<close>), so whether a forward pass changes a weight depends on which
  tensors share storage. Here the tensors live in a store, a list of cells addressed by
  position; a module holds the addresses of its parameters; a lookup writes its result
  to a new cell, as the library's \<^verbatim>\<open>F.embedding\<close> returns a new tensor; the in-place
  addition overwrites the cell of its left operand. The operations after line 72 return
  new tensors and are taken from the value-level definitions above. The encoders are
  functions of their arguments, as above.
\<close>

datatype tensor = Scalar fval | Matrix fmat | Batch ftensor3

type_synonym store = "tensor list"

definition scalar_at :: "store \<Rightarrow> nat \<Rightarrow> fval" where
  "scalar_at s a =
     (if a < length s then (case s ! a of Scalar x \<Rightarrow> x | _ \<Rightarrow> Fin 0) else Fin 0)"

definition matrix_at :: "store \<Rightarrow> nat \<Rightarrow> fmat" where
  "matrix_at s a = (if a < length s then (case s ! a of Matrix m \<Rightarrow> m | _ \<Rightarrow> []) else [])"

definition batch_at :: "store \<Rightarrow> nat \<Rightarrow> ftensor3" where
  "batch_at s a = (if a < length s then (case s ! a of Batch t \<Rightarrow> t | _ \<Rightarrow> []) else [])"

definition alloc :: "store \<Rightarrow> tensor \<Rightarrow> nat \<times> store" where
  "alloc s t = (length s, s @ [t])"

record Embedding_ref =
  r_num_embeddings :: nat
  r_embedding_dim :: nat
  r_weight :: nat

record Linear_ref =
  r_in_features :: nat
  r_out_features :: nat
  r_lin_weight :: nat

record VoiceCLIP_ref =
  r_text_emb :: Embedding_ref
  r_text_pos_emb :: Embedding_ref
  r_text_transformer :: encoder
  r_to_text_latent :: Linear_ref
  r_speech_emb :: Embedding_ref
  r_speech_pos_emb :: Embedding_ref
  r_speech_transformer :: encoder
  r_to_speech_latent :: Linear_ref
  r_temperature :: nat

definition load_Embedding :: "store \<Rightarrow> Embedding_ref \<Rightarrow> Embedding" where
  "load_Embedding s e =
     \<lparr>num_embeddings = r_num_embeddings e, embedding_dim = r_embedding_dim e,
      weight = matrix_at s (r_weight e)\<rparr>"

definition load_Linear :: "store \<Rightarrow> Linear_ref \<Rightarrow> Linear" where
  "load_Linear s l =
     \<lparr>in_features = r_in_features l, out_features = r_out_features l,
      lin_weight = matrix_at s (r_lin_weight l)\<rparr>"

definition load :: "store \<Rightarrow> VoiceCLIP_ref \<Rightarrow> VoiceCLIP" where
  "load s self =
     \<lparr>text_emb = load_Embedding s (r_text_emb self),
      text_pos_emb = load_Embedding s (r_text_pos_emb self),
      text_transformer = r_text_transformer self,
      to_text_latent = load_Linear s (r_to_text_latent self),
      speech_emb = load_Embedding s (r_speech_emb self),
      speech_pos_emb = load_Embedding s (r_speech_pos_emb self),
      speech_transformer = r_speech_transformer self,
      to_speech_latent = load_Linear s (r_to_speech_latent self),
      temperature = scalar_at s (r_temperature self)\<rparr>"

text \<open>The cells that hold the model's weights: \<^verbatim>\<open>self.parameters()\<close>.\<close>

definition parameters :: "VoiceCLIP_ref \<Rightarrow> nat list" where
  "parameters self =
     [r_weight (r_text_emb self), r_weight (r_text_pos_emb self),
      r_lin_weight (r_to_text_latent self), r_weight (r_speech_emb self),
      r_weight (r_speech_pos_emb self), r_lin_weight (r_to_speech_latent self),
      r_temperature self]"

definition allocated :: "VoiceCLIP_ref \<Rightarrow> store \<Rightarrow> bool" where
  "allocated self s = list_all (\<lambda>a. a < length s) (parameters self)"

definition embedding_2d_st :: "Embedding_ref \<Rightarrow> int list list \<Rightarrow> store \<Rightarrow> nat option \<times> store" where
  "embedding_2d_st e idx s =
     (case embedding_2d (load_Embedding s e) idx of
        None \<Rightarrow> (None, s)
      | Some t \<Rightarrow> (case alloc s (Batch t) of (a, s') \<Rightarrow> (Some a, s')))"

definition embedding_1d_st :: "Embedding_ref \<Rightarrow> int list \<Rightarrow> store \<Rightarrow> nat option \<times> store" where
  "embedding_1d_st e idx s =
     (case embedding_1d (load_Embedding s e) idx of
        None \<Rightarrow> (None, s)
      | Some t \<Rightarrow> (case alloc s (Matrix t) of (a, s') \<Rightarrow> (Some a, s')))"

definition iadd_st :: "nat \<Rightarrow> nat \<Rightarrow> store \<Rightarrow> store" where
  "iadd_st a p s = s[a := Batch (iadd_broadcast (batch_at s a) (matrix_at s p))]"

text \<open>Lines 68-69 and 71-72 on the store; the result is the address of the sum.\<close>

definition embed_st ::
  "lookup \<Rightarrow> lookup \<Rightarrow> Embedding_ref \<Rightarrow> Embedding_ref \<Rightarrow> tokens \<Rightarrow> store
   \<Rightarrow> (error + nat) \<times> store" where
  "embed_st tok_site pos_site emb pos_emb x s =
     (case embedding_2d_st emb (ids x) s of
        (None, s1) \<Rightarrow> (Inl (IndexError tok_site), s1)
      | (Some a, s1) \<Rightarrow>
          (case embedding_1d_st pos_emb (arange (ncols x)) s1 of
             (None, s2) \<Rightarrow> (Inl (IndexError pos_site), s2)
           | (Some p, s2) \<Rightarrow> (Inr a, iadd_st a p s2)))"

definition forward_st ::
  "VoiceCLIP_ref \<Rightarrow> tokens \<Rightarrow> tokens \<Rightarrow> bool list list option \<Rightarrow> bool \<Rightarrow> store
   \<Rightarrow> (error + result) \<times> store" where
  "forward_st self text speech_tokens text_mask return_loss s =
     (let b = length (ids text) in
      case embed_st TextTokens TextPositions (r_text_emb self) (r_text_pos_emb self) text s of
        (Inl e, s1) \<Rightarrow> (Inl e, s1)
      | (Inr text_emb0, s1) \<Rightarrow>
          (case embed_st SpeechTokens SpeechPositions (r_speech_emb self)
                  (r_speech_pos_emb self) speech_tokens s1 of
             (Inl e, s2) \<Rightarrow> (Inl e, s2)
           | (Inr speech_emb0, s2) \<Rightarrow>
               (head (scalar_at s2 (r_temperature self)) b
                  (text_latents_of (load s2 self) (batch_at s2 text_emb0) text_mask)
                  (speech_latents_of (load s2 self) (batch_at s2 speech_emb0))
                  return_loss, s2)))"

text \<open>The store \<open>s'\<close> holds every cell of \<open>s\<close> unchanged, and possibly new cells after them.\<close>

definition extends :: "store \<Rightarrow> store \<Rightarrow> bool" where
  "extends s s' = (length s \<le> length s' \<and> take (length s) s' = s)"

section \<open>Real-valued readings\<close>

text \<open>
  The quantities the properties below speak of, over real numbers: the dot product and
  the Euclidean norm of a vector, the vector \<open>v / max(\<parallel>v\<parallel>, eps)\<close>, and the loss in the
  words of the specification, not taken from the code: the entry \<open>(i, j)\<close> of the scaled
  similarity matrix of two batches of latent vectors (row: text, column: speech), and
  the categorical cross-entropy of a \<open>b \<times> b\<close> matrix of scores in which the correct class
  of row \<open>i\<close> is \<open>i\<close>, averaged over the rows.
\<close>

type_synonym vec = "real list"
type_synonym mat = "real list list"

definition dot :: "vec \<Rightarrow> vec \<Rightarrow> real" where
  "dot a b = sum_list (map2 (*) a b)"

definition sumsq :: "vec \<Rightarrow> real" where
  "sumsq v = sum_list (map (\<lambda>x. x * x) v)"

definition l2norm :: "vec \<Rightarrow> real" where
  "l2norm v = sqrt (sumsq v)"

definition normalized :: "vec \<Rightarrow> vec" where
  "normalized v = map (\<lambda>x. x / max (l2norm v) normalize_eps) v"



definition matrix_of :: "nat \<Rightarrow> nat \<Rightarrow> (nat \<Rightarrow> nat \<Rightarrow> real) \<Rightarrow> mat" where
  "matrix_of n k s = map (\<lambda>i. map (s i) [0..<k]) [0..<n]"

text \<open>
  The inputs the properties are about: a token batch is rectangular, its ids are rows
  of the content table and its positions are rows of the positional table; a text mask
  has the shape \<open>(b, L)\<close> of the text batch; a matrix has finite entries only.
\<close>

definition ids_in_range :: "Embedding \<Rightarrow> tokens \<Rightarrow> bool" where
  "ids_in_range emb x = list_all (list_all (in_range emb)) (ids x)"

definition tokens_ok :: "Embedding \<Rightarrow> Embedding \<Rightarrow> tokens \<Rightarrow> bool" where
  "tokens_ok emb pos_emb x =
     (wf_tokens x \<and> list_all (list_all (in_range emb)) (ids x)
      \<and> ncols x \<le> num_embeddings pos_emb)"

definition mask_fits :: "bool list list option \<Rightarrow> tokens \<Rightarrow> bool" where
  "mask_fits text_mask text =
     (case text_mask of
        None \<Rightarrow> True
      | Some msk \<Rightarrow> map length msk = map (\<lambda>row. ncols text) (ids text))"

definition all_finite :: "fmat \<Rightarrow> bool" where
  "all_finite M = list_all (list_all is_Fin) M"

section \<open>A small model\<close>

text \<open>
  A model of width 1 with two text tokens, two speech tokens and an identity encoder,
  on which the theorems below are run. Its text positional table has one row; its
  speech positional table has two, one more than \<open>speech_seq_len\<close>. The second model
  is the first with the temperature 100 in place of 1.
\<close>

definition tiny_config :: config where
  "tiny_config =
     \<lparr>dim_text = 1, dim_speech = 1, dim_latent = 1, num_text_tokens = 2,
      text_enc_depth = 1, text_seq_len = 1, text_heads = 1, num_speech_tokens = 2,
      speech_enc_depth = 1, speech_heads = 1, speech_seq_len = 1\<rparr>"

definition tiny_values :: init_values where
  "tiny_values =
     \<lparr>iv_text_emb = (\<lambda>i j. if i = 0 then 1 else - 1),
      iv_text_pos_emb = (\<lambda>i j. 0),
      iv_to_text_latent = (\<lambda>i j. 1),
      iv_speech_emb = (\<lambda>i j. if i = 0 then 1 else - 1),
      iv_speech_pos_emb = (\<lambda>i j. 0),
      iv_to_speech_latent = (\<lambda>i j. 1)\<rparr>"

definition identity_encoder :: encoder_class where
  "identity_encoder causal seq_len width depth heads rotary_emb = (\<lambda>x text_mask. x)"

definition tiny_clip :: VoiceCLIP where
  "tiny_clip = VoiceCLIP_init identity_encoder tiny_values tiny_config"

definition hot_clip :: VoiceCLIP where
  "hot_clip = tiny_clip\<lparr>temperature := Fin 100\<rparr>"

definition text2 :: tokens where
  "text2 = \<lparr>ncols = 1, ids = [[0], [1]]\<rparr>"

definition speech2 :: tokens where
  "speech2 = \<lparr>ncols = 2, ids = [[0, 0], [1, 1]]\<rparr>"

definition text1 :: tokens where
  "text1 = \<lparr>ncols = 1, ids = [[1]]\<rparr>"

definition speech1 :: tokens where
  "speech1 = \<lparr>ncols = 2, ids = [[0, 0]]\<rparr>"

definition speech_cancel :: tokens where
  "speech_cancel = \<lparr>ncols = 2, ids = [[0, 1]]\<rparr>"

definition text_long :: tokens where
  "text_long = \<lparr>ncols = 2, ids = [[0, 0]]\<rparr>"

definition speech_bad :: tokens where
  "speech_bad = \<lparr>ncols = 1, ids = [[2]]\<rparr>"

text \<open>The small model in a store: its seven parameters in the cells 0 to 6.\<close>

definition tiny_store :: store where
  "tiny_store =
     [Matrix [[Fin 1], [Fin (- 1)]], Matrix [[Fin 0]], Matrix [[Fin 1]],
      Matrix [[Fin 1], [Fin (- 1)]], Matrix [[Fin 0], [Fin 0]], Matrix [[Fin 1]],
      Scalar (Fin 1)]"

definition tiny_ref :: VoiceCLIP_ref where
  "tiny_ref =
     \<lparr>r_text_emb = \<lparr>r_num_embeddings = 2, r_embedding_dim = 1, r_weight = 0\<rparr>,
      r_text_pos_emb = \<lparr>r_num_embeddings = 1, r_embedding_dim = 1, r_weight = 1\<rparr>,
      r_text_transformer = (\<lambda>x text_mask. x),
      r_to_text_latent = \<lparr>r_in_features = 1, r_out_features = 1, r_lin_weight = 2\<rparr>,
      r_speech_emb = \<lparr>r_num_embeddings = 2, r_embedding_dim = 1, r_weight = 3\<rparr>,
      r_speech_pos_emb = \<lparr>r_num_embeddings = 2, r_embedding_dim = 1, r_weight = 4\<rparr>,
      r_speech_transformer = (\<lambda>x text_mask. x),
      r_to_speech_latent = \<lparr>r_in_features = 1, r_out_features = 1, r_lin_weight = 5\<rparr>,
      r_temperature = 6\<rparr>"

section \<open>Values: lemmas\<close>

lemma float_max_gt_1: "1 < float_max"
  by (simp add: float_max_def)

lemma float_max_pos: "0 < float_max"
  using float_max_gt_1 by linarith

lemma to_float_Fin: "\<bar>x\<bar> \<le> float_max \<Longrightarrow> to_float x = Fin x"
  by (auto simp: to_float_def)

lemma to_float_0 [simp]: "to_float 0 = Fin 0"
  using float_max_pos by (simp add: to_float_def)

lemma to_float_1 [simp]: "to_float 1 = Fin 1"
  using float_max_gt_1 by (simp add: to_float_def)

lemma to_float_minus_1 [simp]: "to_float (- 1) = Fin (- 1)"
  using float_max_gt_1 by (simp add: to_float_def)

section \<open>Pooling: lemmas\<close>

lemma filter_all_true: "list_all (\<lambda>m. m) row \<Longrightarrow> filter (\<lambda>m. m) row = row"
  by (induction row) auto

lemma filter_all_false: "list_all Not row \<Longrightarrow> filter (\<lambda>m. m) row = []"
  by (induction row) auto

lemma masked_fill_row_all_true:
  "list_all (\<lambda>m. m) mrow \<Longrightarrow> length mrow = length ex \<Longrightarrow>
   map2 (\<lambda>v fill. if fill then map (\<lambda>_. Fin c) v else v) ex (map Not mrow) = ex"
  by (induction ex mrow rule: list_induct2') auto

lemma vadd_zeros: "vadd (replicate d (Fin 0)) (replicate d (Fin 0)) = replicate d (Fin 0)"
  by (simp add: vadd_def zip_replicate map_replicate)

text \<open>Where the count of a mask row is zero, the sum it divides is zero as well.\<close>

lemma sum_dim1_masked_out:
  "list_all Not mrow \<Longrightarrow> list_all (\<lambda>v. length v = d) ex \<Longrightarrow>
   foldl vadd (replicate d (Fin 0))
     (map2 (\<lambda>v fill. if fill then map (\<lambda>_. Fin 0) v else v) ex (map Not mrow))
     = replicate d (Fin 0)"
proof (induction ex mrow rule: list_induct2')
  case (4 v ex m mrow)
  then show ?case by (simp add: map_replicate_const vadd_zeros)
qed simp_all

lemma masked_mean_nth:
  assumes "i < length t" "i < length msk"
  shows "masked_mean d t msk ! i =
     map (\<lambda>x. fdiv x (Fin (real (length (filter (\<lambda>m. m) (msk ! i))))))
       (foldl vadd (replicate d (Fin 0))
          (map2 (\<lambda>v fill. if fill then map (\<lambda>_. Fin 0) v else v) (t ! i) (map Not (msk ! i))))"
  using assms
  by (simp add: masked_mean_def masked_fill_def sum_dim1_def mask_sum_def Let_def)

section \<open>The forward pass: lemmas\<close>

lemma arange_in_range: "list_all (in_range e) (arange n) \<longleftrightarrow> n \<le> num_embeddings e"
proof
  assume a: "list_all (in_range e) (arange n)"
  show "n \<le> num_embeddings e"
  proof (rule ccontr)
    assume "\<not> n \<le> num_embeddings e"
    then have "int (num_embeddings e) \<in> set (arange n)" by (simp add: arange_def)
    with a have "in_range e (int (num_embeddings e))" by (simp add: list_all_iff)
    then show False by (simp add: in_range_def)
  qed
next
  assume "n \<le> num_embeddings e"
  then show "list_all (in_range e) (arange n)"
    by (auto simp: list_all_iff arange_def in_range_def)
qed

lemma embedding_1d_arange:
  "embedding_1d e (arange n) =
     (if n \<le> num_embeddings e then Some (map (\<lambda>i. weight e ! i) [0..<n]) else None)"
  by (simp add: embedding_1d_def arange_in_range) (simp add: arange_def comp_def)

lemma embed_eq:
  "embed a b e p x =
     (if \<not> list_all (list_all (in_range e)) (ids x) then Inl (IndexError a)
      else if num_embeddings p < ncols x then Inl (IndexError b)
      else Inr (iadd_broadcast (map (map (\<lambda>i. weight e ! nat i)) (ids x))
                  (map (\<lambda>i. weight p ! i) [0..<ncols x])))"
  by (simp add: embed_def embedding_2d_def embedding_1d_arange)

lemma embed_ok:
  assumes "tokens_ok e p x"
  shows "\<exists>t. embed a b e p x = Inr t \<and> map length t = map (\<lambda>row. ncols x) (ids x)"
proof -
  from assms have "list_all (\<lambda>row. length row = ncols x) (ids x)"
    by (simp add: tokens_ok_def wf_tokens_def)
  then have "map length (iadd_broadcast (map (map f) (ids x)) (map g [0..<ncols x]))
      = map (\<lambda>row. ncols x) (ids x)" for f :: "int \<Rightarrow> fvec" and g
    by (induction "ids x") (simp_all add: iadd_broadcast_def list_all_iff)
  then show ?thesis
    using assms by (simp add: embed_eq tokens_ok_def)
qed

lemma forward_embedded:
  assumes "embed TextTokens TextPositions (text_emb self) (text_pos_emb self) text = Inr te"
    and "embed SpeechTokens SpeechPositions (speech_emb self) (speech_pos_emb self) speech_tokens
         = Inr se"
  shows "forward self text speech_tokens text_mask return_loss =
     head (temperature self) (length (ids text)) (text_latents_of self te text_mask)
       (speech_latents_of self se) return_loss"
  using assms by (simp add: forward_def)

lemma mean_dim1_eq:
  "mean_dim1 d t =
     map (\<lambda>ex. map (\<lambda>x. fdiv x (Fin (real (length ex))))
            (foldl vadd (replicate d (Fin 0)) ex)) t"
  by (induction t) (simp_all add: mean_dim1_def sum_dim1_def)

lemma length_mean_dim1: "length (mean_dim1 d t) = length t"
  by (simp add: mean_dim1_eq)

lemma length_masked_mean: "length (masked_mean d t msk) = min (length t) (length msk)"
  by (simp add: masked_mean_def masked_fill_def sum_dim1_def mask_sum_def Let_def)

lemma length_latents [simp]: "length (normalize (linear l P)) = length P"
  by (simp add: normalize_def linear_def)

lemma shape_preservingD:
  "shape_preserving f \<Longrightarrow> map length (f x m) = map length x"
  "shape_preserving f \<Longrightarrow> length (f x m) = length x"
  by (simp_all add: shape_preserving_def)

lemma length_embed:
  "embed a b e p x = Inr t \<Longrightarrow> length t = length (ids x)"
  by (auto simp: embed_eq iadd_broadcast_def split: if_splits)

lemma length_text_pooled:
  assumes "shape_preserving (text_transformer self)" and "mask_fits text_mask text"
    and "length te = length (ids text)"
  shows "length (text_pooled self te text_mask) = length (ids text)"
proof (cases text_mask)
  case None
  then show ?thesis
    using assms by (simp add: text_pooled_def Let_def length_mean_dim1 shape_preservingD)
next
  case (Some msk)
  then have "length msk = length (ids text)"
    using assms(2) by (auto simp: mask_fits_def dest: map_eq_imp_length_eq)
  then show ?thesis
    using assms Some by (simp add: text_pooled_def Let_def length_masked_mean shape_preservingD)
qed

lemma length_speech_pooled:
  assumes "shape_preserving (speech_transformer self)"
  shows "length (speech_pooled self se) = length se"
  using assms by (simp add: speech_pooled_def Let_def length_mean_dim1 shape_preservingD)


section \<open>The store: lemmas\<close>

lemma extends_refl: "extends s s"
  by (simp add: extends_def)

lemma extends_trans:
  assumes "extends s s1" and "extends s1 s2"
  shows "extends s s2"
proof -
  have l: "length s \<le> length s1" "length s1 \<le> length s2"
    using assms by (simp_all add: extends_def)
  have "take (length s) s2 = take (length s) (take (length s1) s2)"
    using l by (simp add: min_def)
  also have "\<dots> = s"
    using assms by (simp add: extends_def)
  finally show ?thesis using l by (simp add: extends_def)
qed

lemma extends_nth:
  assumes "extends s s'" and "a < length s"
  shows "s' ! a = s ! a"
proof -
  have "take (length s) s' ! a = s' ! a" using assms(2) by simp
  then show ?thesis using assms(1) by (simp add: extends_def)
qed

lemma extends_at:
  assumes "extends s s'" and "a < length s"
  shows "matrix_at s' a = matrix_at s a" and "scalar_at s' a = scalar_at s a"
    and "batch_at s' a = batch_at s a"
  using assms extends_nth[OF assms]
  by (simp_all add: matrix_at_def scalar_at_def batch_at_def extends_def)

lemma extends_load_Embedding:
  "extends s s' \<Longrightarrow> r_weight e < length s \<Longrightarrow> load_Embedding s' e = load_Embedding s e"
  by (simp add: load_Embedding_def extends_at)

lemma extends_load:
  assumes "extends s s'" and "allocated self s"
  shows "load s' self = load s self"
  using assms
  by (simp add: load_def load_Embedding_def load_Linear_def allocated_def parameters_def
      extends_at)

lemma embedding_2d_st_eq:
  "embedding_2d_st e idx s =
     (case embedding_2d (load_Embedding s e) idx of
        None \<Rightarrow> (None, s)
      | Some t \<Rightarrow> (Some (length s), s @ [Batch t]))"
  by (simp add: embedding_2d_st_def alloc_def split: option.splits)

lemma embedding_1d_st_eq:
  "embedding_1d_st e idx s =
     (case embedding_1d (load_Embedding s e) idx of
        None \<Rightarrow> (None, s)
      | Some t \<Rightarrow> (Some (length s), s @ [Matrix t]))"
  by (simp add: embedding_1d_st_def alloc_def split: option.splits)

lemma iadd_st_fresh:
  "iadd_st (length s) (Suc (length s)) (s @ [Batch t, Matrix p])
     = s @ [Batch (iadd_broadcast t p), Matrix p]"
proof -
  have "batch_at (s @ [Batch t, Matrix p]) (length s) = t"
    by (simp add: batch_at_def)
  moreover have "matrix_at (s @ [Batch t, Matrix p]) (Suc (length s)) = p"
    by (simp add: matrix_at_def nth_append)
  ultimately show ?thesis
    by (simp add: iadd_st_def)
qed

lemma embed_st_eq:
  assumes "r_weight pos_emb < length s"
  shows "embed_st a b emb pos_emb x s =
     (case embedding_2d (load_Embedding s emb) (ids x) of
        None \<Rightarrow> (Inl (IndexError a), s)
      | Some t \<Rightarrow>
          (case embedding_1d (load_Embedding s pos_emb) (arange (ncols x)) of
             None \<Rightarrow> (Inl (IndexError b), s @ [Batch t])
           | Some p \<Rightarrow> (Inr (length s), s @ [Batch (iadd_broadcast t p), Matrix p])))"
proof (cases "embedding_2d (load_Embedding s emb) (ids x)")
  case None
  then show ?thesis by (simp add: embed_st_def embedding_2d_st_eq)
next
  case t: (Some t)
  have "extends s (s @ [Batch t])" by (simp add: extends_def)
  then have lp: "load_Embedding (s @ [Batch t]) pos_emb = load_Embedding s pos_emb"
    using assms by (rule extends_load_Embedding)
  show ?thesis
  proof (cases "embedding_1d (load_Embedding s pos_emb) (arange (ncols x))")
    case None
    then show ?thesis
      by (simp add: embed_st_def embedding_2d_st_eq embedding_1d_st_eq t lp)
  next
    case p: (Some p)
    have "embed_st a b emb pos_emb x s
        = (Inr (length s), iadd_st (length s) (Suc (length s)) (s @ [Batch t, Matrix p]))"
      by (simp add: embed_st_def embedding_2d_st_eq embedding_1d_st_eq t p lp)
    then show ?thesis
      by (simp only: iadd_st_fresh) (simp add: t p)
  qed
qed

lemma extends_append: "extends s (s @ xs)"
  by (simp add: extends_def)

lemma allocated_extends: "allocated self s \<Longrightarrow> extends s s' \<Longrightarrow> allocated self s'"
  by (auto simp: allocated_def extends_def list_all_iff)

lemma allocatedD:
  assumes "allocated self s"
  shows "r_weight (r_text_emb self) < length s" "r_weight (r_text_pos_emb self) < length s"
    "r_weight (r_speech_emb self) < length s" "r_weight (r_speech_pos_emb self) < length s"
    "r_temperature self < length s"
  using assms by (simp_all add: allocated_def parameters_def)

lemma load_fields:
  "text_emb (load s self) = load_Embedding s (r_text_emb self)"
  "text_pos_emb (load s self) = load_Embedding s (r_text_pos_emb self)"
  "speech_emb (load s self) = load_Embedding s (r_speech_emb self)"
  "speech_pos_emb (load s self) = load_Embedding s (r_speech_pos_emb self)"
  "temperature (load s self) = scalar_at s (r_temperature self)"
  by (simp_all add: load_def)

lemma forward_st_refines:
  assumes "allocated self s"
  shows "fst (forward_st self text speech_tokens text_mask return_loss s)
           = forward (load s self) text speech_tokens text_mask return_loss
         \<and> extends s (snd (forward_st self text speech_tokens text_mask return_loss s))"
proof (cases "embed TextTokens TextPositions (load_Embedding s (r_text_emb self))
    (load_Embedding s (r_text_pos_emb self)) text")
  case (Inl e)
  then show ?thesis
    using allocatedD[OF assms]
    by (auto simp: forward_st_def forward_def embed_st_eq load_fields embed_def extends_refl
        extends_append split: option.splits)
next
  case te: (Inr te)
  then obtain t p where t: "embedding_2d (load_Embedding s (r_text_emb self)) (ids text) = Some t"
    and p: "embedding_1d (load_Embedding s (r_text_pos_emb self)) (arange (ncols text)) = Some p"
    and te_eq: "te = iadd_broadcast t p"
    by (auto simp: embed_def split: option.splits)
  let ?s1 = "s @ [Batch te, Matrix p]"
  have st1: "embed_st TextTokens TextPositions (r_text_emb self) (r_text_pos_emb self) text s
      = (Inr (length s), ?s1)"
    using allocatedD[OF assms] by (simp add: embed_st_eq t p te_eq)
  have e1: "extends s ?s1" by (rule extends_append)
  have a1: "allocated self ?s1" using assms e1 by (rule allocated_extends)
  have l1: "load ?s1 self = load s self" using e1 assms by (rule extends_load)
  have le1: "load_Embedding ?s1 (r_speech_emb self) = load_Embedding s (r_speech_emb self)"
    "load_Embedding ?s1 (r_speech_pos_emb self) = load_Embedding s (r_speech_pos_emb self)"
    using allocatedD[OF assms] e1 by (simp_all add: extends_load_Embedding)
  show ?thesis
  proof (cases "embed SpeechTokens SpeechPositions (load_Embedding s (r_speech_emb self))
      (load_Embedding s (r_speech_pos_emb self)) speech_tokens")
    case (Inl e)
    then have "fst (embed_st SpeechTokens SpeechPositions (r_speech_emb self)
        (r_speech_pos_emb self) speech_tokens ?s1) = Inl e
      \<and> extends ?s1 (snd (embed_st SpeechTokens SpeechPositions (r_speech_emb self)
        (r_speech_pos_emb self) speech_tokens ?s1))"
      using allocatedD[OF a1]
      by (auto simp: embed_st_eq le1 embed_def extends_def split: option.splits)
    then show ?thesis
      using te Inl e1
      by (auto simp: forward_st_def forward_def st1 load_fields split: prod.splits
          intro: extends_trans)
  next
    case se: (Inr se)
    then obtain u q where
      u: "embedding_2d (load_Embedding s (r_speech_emb self)) (ids speech_tokens) = Some u"
      and q: "embedding_1d (load_Embedding s (r_speech_pos_emb self))
          (arange (ncols speech_tokens)) = Some q"
      and se_eq: "se = iadd_broadcast u q"
      by (auto simp: embed_def split: option.splits)
    let ?s2 = "?s1 @ [Batch se, Matrix q]"
    have st2: "embed_st SpeechTokens SpeechPositions (r_speech_emb self)
        (r_speech_pos_emb self) speech_tokens ?s1 = (Inr (length ?s1), ?s2)"
      using allocatedD[OF a1] by (simp add: embed_st_eq le1 u q se_eq)
    have e2: "extends s ?s2"
      using extends_append[of s "[Batch te, Matrix p, Batch se, Matrix q]"] by simp
    have l2: "load ?s2 self = load s self" using e2 assms by (rule extends_load)
    have b1: "batch_at ?s2 (length s) = te"
      by (simp add: batch_at_def nth_append)
    have b2: "batch_at ?s2 (length ?s1) = se"
      by (simp add: batch_at_def nth_append)
    have tmp: "scalar_at ?s2 (r_temperature self) = temperature (load s self)"
      using l2 by (simp add: load_fields[symmetric])
    have "forward_st self text speech_tokens text_mask return_loss s
        = (head (temperature (load s self)) (length (ids text))
             (text_latents_of (load s self) te text_mask)
             (speech_latents_of (load s self) se) return_loss, ?s2)"
      unfolding forward_st_def Let_def st1 prod.case sum.case st2
      by (simp only: l2 b1 b2 tmp)
    moreover have "forward (load s self) text speech_tokens text_mask return_loss
        = head (temperature (load s self)) (length (ids text))
             (text_latents_of (load s self) te text_mask)
             (speech_latents_of (load s self) se) return_loss"
      using te se by (simp add: forward_def load_fields)
    ultimately show ?thesis using e2 by simp
  qed
qed

section \<open>The small model: lemmas\<close>

lemma tiny_fields:
  "text_emb tiny_clip = \<lparr>num_embeddings = 2, embedding_dim = 1, weight = [[Fin 1], [Fin (- 1)]]\<rparr>"
  "text_pos_emb tiny_clip = \<lparr>num_embeddings = 1, embedding_dim = 1, weight = [[Fin 0]]\<rparr>"
  "speech_emb tiny_clip
     = \<lparr>num_embeddings = 2, embedding_dim = 1, weight = [[Fin 1], [Fin (- 1)]]\<rparr>"
  "speech_pos_emb tiny_clip
     = \<lparr>num_embeddings = 2, embedding_dim = 1, weight = [[Fin 0], [Fin 0]]\<rparr>"
  "to_text_latent tiny_clip = \<lparr>in_features = 1, out_features = 1, lin_weight = [[Fin 1]]\<rparr>"
  "to_speech_latent tiny_clip = \<lparr>in_features = 1, out_features = 1, lin_weight = [[Fin 1]]\<rparr>"
  "text_transformer tiny_clip = (\<lambda>x text_mask. x)"
  "speech_transformer tiny_clip = (\<lambda>x text_mask. x)"
  "temperature tiny_clip = Fin 1"
  by (simp_all add: tiny_clip_def VoiceCLIP_init_def tiny_config_def tiny_values_def
      nn_Embedding_def nn_Linear_def identity_encoder_def eval_nat_numeral)

lemma tiny_shape_preserving:
  "shape_preserving (text_transformer tiny_clip)" "shape_preserving (speech_transformer tiny_clip)"
  by (simp_all add: tiny_fields shape_preserving_def)

lemma load_tiny: "load tiny_store tiny_ref = tiny_clip"
  by (simp add: load_def load_Embedding_def load_Linear_def matrix_at_def scalar_at_def
      tiny_store_def tiny_ref_def tiny_clip_def VoiceCLIP_init_def tiny_config_def
      tiny_values_def nn_Embedding_def nn_Linear_def identity_encoder_def eval_nat_numeral)

section \<open>Finite values: lemmas\<close>

lemma is_Fin_conv: "is_Fin x \<longleftrightarrow> (\<exists>r. x = Fin r)"
  by (cases x) simp_all

lemma all_Fin_vec: "list_all is_Fin v \<Longrightarrow> \<exists>xs. v = map Fin xs"
proof (induction v)
  case (Cons x v)
  then obtain r xs where "x = Fin r" "v = map Fin xs" by (auto simp: is_Fin_conv)
  then show ?case by (intro exI[of _ "r # xs"]) simp
qed simp

lemma all_Fin_mat: "list_all (list_all is_Fin) M \<Longrightarrow> \<exists>R. M = map (map Fin) R"
proof (induction M)
  case (Cons v M)
  then obtain xs R where "v = map Fin xs" "M = map (map Fin) R"
    using all_Fin_vec[of v] by auto
  then show ?case by (intro exI[of _ "xs # R"]) simp
qed simp

lemma abs_le_sum_list_abs: "x \<in> set xs \<Longrightarrow> \<bar>x\<bar> \<le> sum_list (map abs (xs :: real list))"
proof (induction xs)
  case (Cons a xs)
  have "0 \<le> sum_list (map abs xs)" by (rule sum_list_nonneg) auto
  with Cons show ?case by auto
qed simp

lemma foldl_fadd_Fin:
  "\<bar>a\<bar> + sum_list (map abs xs) \<le> float_max \<Longrightarrow>
   foldl fadd (Fin a) (map Fin xs) = Fin (a + sum_list xs)"
proof (induction xs arbitrary: a)
  case (Cons x xs)
  have nn: "0 \<le> sum_list (map abs xs)" by (rule sum_list_nonneg) auto
  have "\<bar>a + x\<bar> \<le> float_max" using Cons.prems nn by simp
  then have step: "fadd (Fin a) (Fin x) = Fin (a + x)" by (simp add: to_float_Fin)
  have "\<bar>a + x\<bar> + sum_list (map abs xs) \<le> float_max" using Cons.prems by simp
  then show ?case using Cons.IH[of "a + x"] step by (simp add: add.assoc)
qed simp

lemma fsum_Fin:
  "sum_list (map abs xs) \<le> float_max \<Longrightarrow> fsum (map Fin xs) = Fin (sum_list xs)"
  using foldl_fadd_Fin[of 0 xs] by (simp add: fsum_def)

lemma fsum_Fin_map:
  "sum_list (map (\<lambda>x. \<bar>f x\<bar>) xs) \<le> float_max
   \<Longrightarrow> fsum (map (\<lambda>x. Fin (f x)) xs) = Fin (sum_list (map f xs))"
  using fsum_Fin[of "map f xs"] by (simp add: comp_def)

section \<open>Normalization: lemmas\<close>

lemma sumsq_nonneg: "0 \<le> sumsq v"
  unfolding sumsq_def by (rule sum_list_nonneg) auto

lemma sumsq_Cons: "sumsq (x # v) = x * x + sumsq v"
  by (simp add: sumsq_def)

lemma sq_le_sumsq: "x \<in> set v \<Longrightarrow> x * x \<le> sumsq v"
proof (induction v)
  case (Cons a v)
  have a: "0 \<le> a * a" by simp
  show ?case
  proof (cases "x = a")
    case True
    then show ?thesis using sumsq_nonneg[of v] by (simp add: sumsq_Cons)
  next
    case False
    then have "x * x \<le> sumsq v" using Cons by simp
    then show ?thesis using a unfolding sumsq_Cons by linarith
  qed
qed simp

lemma abs_le_l2norm: "x \<in> set v \<Longrightarrow> \<bar>x\<bar> \<le> l2norm v"
proof -
  assume "x \<in> set v"
  then have "x * x \<le> sumsq v" by (rule sq_le_sumsq)
  then have "\<bar>x\<bar>\<^sup>2 \<le> sumsq v" by (simp add: power2_eq_square)
  then have "\<bar>x\<bar> \<le> sqrt (sumsq v)" by (rule real_le_rsqrt)
  then show ?thesis by (simp add: l2norm_def)
qed

lemma fadd_to_float_nonneg:
  "0 \<le> a \<Longrightarrow> 0 \<le> y \<Longrightarrow> fadd (to_float a) (to_float y) = to_float (a + y)"
  using float_max_pos by (auto simp: to_float_def)

lemma foldl_fadd_squares:
  "0 \<le> a \<Longrightarrow>
   foldl fadd (to_float a) (map (\<lambda>x. to_float (x * x)) p) = to_float (a + sumsq p)"
proof (induction p arbitrary: a)
  case (Cons x p)
  have "fadd (to_float a) (to_float (x * x)) = to_float (a + x * x)"
    using Cons.prems by (simp add: fadd_to_float_nonneg)
  then show ?case
    using Cons.IH[of "a + x * x"] Cons.prems by (simp add: sumsq_Cons add.assoc)
qed (simp add: sumsq_def)

lemma norm2_Fin:
  "norm2 (map Fin p) = (if float_max < sumsq p then PInf else Fin (l2norm p))"
proof -
  have "fsum (map (\<lambda>x. fmul x x) (map Fin p)) = to_float (sumsq p)"
    using foldl_fadd_squares[of 0 p] by (simp add: fsum_def comp_def)
  then show ?thesis
    using sumsq_nonneg[of p] float_max_pos
    by (simp add: norm2_def to_float_def l2norm_def)
qed

lemma normalize_eps_pos: "0 < normalize_eps"
  by (simp add: normalize_eps_def)

lemma normalize_row_overflow:
  "float_max < sumsq p \<Longrightarrow> normalize_row (map Fin p) = map Fin (map (\<lambda>x. 0) p)"
  by (simp add: normalize_row_def norm2_Fin fclamp_min_def comp_def)

lemma normalize_row_Fin:
  assumes "sumsq p \<le> float_max"
  shows "normalize_row (map Fin p) = map Fin (normalized p)"
proof -
  let ?n = "max (l2norm p) normalize_eps"
  have n: "0 < ?n" using normalize_eps_pos by (simp add: max_def)
  have "fdiv (Fin x) (Fin ?n) = Fin (x / ?n)" if "x \<in> set p" for x
  proof -
    have "\<bar>x\<bar> \<le> ?n" using abs_le_l2norm[OF that] by simp
    then have "\<bar>x / ?n\<bar> \<le> 1" using n by (simp add: abs_divide)
    then have "\<bar>x / ?n\<bar> \<le> float_max" using float_max_gt_1 by linarith
    then show ?thesis using n by (simp add: to_float_Fin)
  qed
  then show ?thesis
    using assms
    by (simp add: normalize_row_def norm2_Fin fclamp_min_def normalized_def Let_def
        not_less[symmetric])
qed

lemma l2norm_zeros: "l2norm (map (\<lambda>x. 0) p) = 0"
  by (induction p) (simp_all add: l2norm_def sumsq_def)

lemma sumsq_scaled: "sumsq (map (\<lambda>x. x / n) p) = sumsq p / (n * n)"
  by (induction p) (simp_all add: sumsq_def add_divide_distrib)

lemma l2norm_normalized:
  "l2norm (normalized p)
     = (if normalize_eps \<le> l2norm p then 1 else l2norm p / normalize_eps)"
proof -
  let ?n = "max (l2norm p) normalize_eps"
  have n: "0 < ?n" using normalize_eps_pos by (simp add: max_def)
  have "l2norm (normalized p) = l2norm p / ?n"
    using n by (simp add: l2norm_def normalized_def sumsq_scaled real_sqrt_divide
        real_sqrt_mult)
  then show ?thesis using normalize_eps_pos by (auto simp: max_def)
qed

lemma l2norm_normalized_le_1: "l2norm (normalized p) \<le> 1"
proof -
  have "0 \<le> l2norm p" by (simp add: l2norm_def sumsq_nonneg)
  then show ?thesis
    using normalize_eps_pos by (auto simp: l2norm_normalized)
qed

lemma inf_sign_not_Fin: "inf_sign b \<noteq> Fin r"
  by (cases b) simp_all

lemma map_Fin_inj: "map Fin xs = map Fin ys \<Longrightarrow> xs = ys"
  by (simp add: inj_map_eq_map inj_on_def)

lemma fdiv_Fin_D: "fdiv x n = Fin r \<Longrightarrow> \<exists>x'. x = Fin x'"
  by (cases x; cases n) (auto simp: inf_sign_not_Fin split: if_splits)

lemma normalize_row_finite:
  assumes "normalize_row v = map Fin ys"
  shows "l2norm ys \<le> 1"
proof -
  have "is_Fin x" if "x \<in> set v" for x
  proof -
    from that obtain k where k: "k < length v" "v ! k = x" by (auto simp: in_set_conv_nth)
    have "normalize_row v ! k = Fin (ys ! k)"
      using k assms by (metis length_map nth_map normalize_row_def)
    then have "fdiv x (fclamp_min (norm2 v) normalize_eps) = Fin (ys ! k)"
      using k by (simp add: normalize_row_def Let_def)
    then show ?thesis using fdiv_Fin_D by (auto simp: is_Fin_conv)
  qed
  then obtain p where p: "v = map Fin p"
    using all_Fin_vec[of v] by (auto simp: list_all_iff)
  show ?thesis
  proof (cases "float_max < sumsq p")
    case True
    then have "map Fin ys = map Fin (map (\<lambda>x. 0) p)"
      using assms p by (simp add: normalize_row_overflow)
    then have "ys = map (\<lambda>x. 0) p" by (rule map_Fin_inj)
    then show ?thesis by (simp add: l2norm_zeros)
  next
    case False
    then have "map Fin ys = map Fin (normalized p)"
      using assms p by (simp add: normalize_row_Fin)
    then have "ys = normalized p" by (rule map_Fin_inj)
    then show ?thesis by (simp add: l2norm_normalized_le_1)
  qed
qed

section \<open>Dot products: lemmas\<close>

lemma sumsq_le_1: "l2norm v \<le> 1 \<Longrightarrow> sumsq v \<le> 1"
  by (simp add: l2norm_def)

lemma abs_mult_le_half_squares: "\<bar>x * y\<bar> \<le> (x * x + y * y) / 2" for x y :: real
proof -
  have "2 * \<bar>x\<bar> * \<bar>y\<bar> \<le> \<bar>x\<bar>\<^sup>2 + \<bar>y\<bar>\<^sup>2" by (rule sum_squares_bound)
  then show ?thesis by (simp add: power2_eq_square abs_mult)
qed

lemma sum_abs_products: "sum_list (map abs (map2 (*) a b)) \<le> (sumsq a + sumsq b) / 2"
proof (induction a b rule: list_induct2')
  case 1
  show ?case by (simp add: sumsq_def)
next
  case (2 x xs)
  show ?case using sumsq_nonneg[of "x # xs"] by (simp add: sumsq_def)
next
  case (3 y ys)
  show ?case using sumsq_nonneg[of "y # ys"] by (simp add: sumsq_def)
next
  case (4 x xs y ys)
  then show ?case
    using abs_mult_le_half_squares[of x y] by (simp add: sumsq_Cons)
qed

lemma map_to_float_Fin:
  assumes "sum_list (map abs xs) \<le> float_max"
  shows "map to_float xs = map Fin xs"
proof -
  have "to_float x = Fin x" if "x \<in> set xs" for x
    using abs_le_sum_list_abs[OF that] assms by (simp add: to_float_Fin)
  then show ?thesis by simp
qed

lemma map2_fmul_Fin: "map2 fmul (map Fin a) (map Fin b) = map to_float (map2 (*) a b)"
  by (induction a b rule: list_induct2') simp_all

lemma fdot_Fin:
  assumes "sumsq a \<le> 1" and "sumsq b \<le> 1"
  shows "fdot (map Fin a) (map Fin b) = Fin (dot a b)" and "\<bar>dot a b\<bar> \<le> 1"
proof -
  let ?ps = "map2 (*) a b"
  have "(sumsq a + sumsq b) / 2 \<le> 1" using assms by simp
  then have s: "sum_list (map abs ?ps) \<le> 1"
    by (rule order_trans[OF sum_abs_products])
  then have m: "sum_list (map abs ?ps) \<le> float_max"
    using float_max_gt_1 by linarith
  have "fdot (map Fin a) (map Fin b) = fsum (map Fin ?ps)"
    unfolding fdot_def map2_fmul_Fin map_to_float_Fin[OF m] ..
  then show "fdot (map Fin a) (map Fin b) = Fin (dot a b)"
    by (simp only: fsum_Fin[OF m] dot_def)
  have "\<bar>sum_list ?ps\<bar> \<le> sum_list (map abs ?ps)" by (rule sum_list_abs)
  then show "\<bar>dot a b\<bar> \<le> 1" using s by (simp add: dot_def)
qed

lemma to_float_exp: "exp t \<le> float_max \<Longrightarrow> to_float (exp t) = Fin (exp t)"
  by (simp add: to_float_Fin)


lemma scale_Fin:
  assumes "\<bar>d\<bar> \<le> 1" and "exp t \<le> float_max"
  shows "scale (fexp (Fin t)) (Fin d) = Fin (d * exp t)"
proof -
  have "\<bar>d * exp t\<bar> \<le> 1 * exp t"
    unfolding abs_mult using assms(1) by (intro mult_mono) simp_all
  then have "\<bar>d * exp t\<bar> \<le> float_max" using assms(2) by simp
  then show ?thesis by (simp add: scale_def to_float_exp[OF assms(2)] to_float_Fin)
qed


section \<open>The small model: evaluation\<close>

lemma to_float_2 [simp]: "to_float 2 = Fin 2"
  using float_max_gt_1 by (simp add: to_float_def float_max_def)

lemma to_float_minus_2 [simp]: "to_float (- 2) = Fin (- 2)"
  using float_max_gt_1 by (simp add: to_float_def float_max_def)

lemma exp_1_le_float_max: "exp (1::real) \<le> float_max"
proof -
  have "exp (1::real) \<le> 3" by (rule exp_le)
  moreover have "3 \<le> float_max" by (simp add: float_max_def)
  ultimately show ?thesis by linarith
qed

lemma tiny_embed_text2:
  "embed TextTokens TextPositions (text_emb tiny_clip) (text_pos_emb tiny_clip) text2
     = Inr [[[Fin 1]], [[Fin (- 1)]]]"
  by (simp add: embed_eq tiny_fields text2_def in_range_def iadd_broadcast_def vadd_def)

lemma tiny_embed_speech2:
  "embed SpeechTokens SpeechPositions (speech_emb tiny_clip) (speech_pos_emb tiny_clip) speech2
     = Inr [[[Fin 1], [Fin 1]], [[Fin (- 1)], [Fin (- 1)]]]"
  by (simp add: embed_eq tiny_fields speech2_def in_range_def iadd_broadcast_def vadd_def
      eval_nat_numeral)

lemma tiny_embed_text1:
  "embed TextTokens TextPositions (text_emb tiny_clip) (text_pos_emb tiny_clip) text1
     = Inr [[[Fin (- 1)]]]"
  by (simp add: embed_eq tiny_fields text1_def in_range_def iadd_broadcast_def vadd_def)

lemma tiny_embed_speech1:
  "embed SpeechTokens SpeechPositions (speech_emb tiny_clip) (speech_pos_emb tiny_clip) speech1
     = Inr [[[Fin 1], [Fin 1]]]"
  by (simp add: embed_eq tiny_fields speech1_def in_range_def iadd_broadcast_def vadd_def
      eval_nat_numeral)


lemma tiny_speech_projected2:
  "linear (to_speech_latent tiny_clip)
     (speech_pooled tiny_clip [[[Fin 1], [Fin 1]], [[Fin (- 1)], [Fin (- 1)]]])
     = [[Fin 1], [Fin (- 1)]]"
  by (simp add: speech_pooled_def tiny_fields mean_dim1_eq vadd_def linear_def linear_row_def
      fdot_def fsum_def)

lemma normalize_row_1: "normalize_row [Fin 1] = [Fin 1]"
  by (simp add: normalize_row_def norm2_def fsum_def fclamp_min_def normalize_eps_def)

lemma normalize_row_minus_1: "normalize_row [Fin (- 1)] = [Fin (- 1)]"
  by (simp add: normalize_row_def norm2_def fsum_def fclamp_min_def normalize_eps_def)


lemma tiny_speech_latents2:
  "speech_latents_of tiny_clip [[[Fin 1], [Fin 1]], [[Fin (- 1)], [Fin (- 1)]]]
     = [[Fin 1], [Fin (- 1)]]"
  by (simp add: speech_latents_of_def tiny_speech_projected2 normalize_def normalize_row_1
      normalize_row_minus_1)

text \<open>The second model differs from the first in the temperature only.\<close>

lemma hot_fields:
  "text_emb hot_clip = text_emb tiny_clip" "text_pos_emb hot_clip = text_pos_emb tiny_clip"
  "speech_emb hot_clip = speech_emb tiny_clip"
  "speech_pos_emb hot_clip = speech_pos_emb tiny_clip"
  "temperature hot_clip = Fin 100"
  "text_latents_of hot_clip = text_latents_of tiny_clip"
  "speech_latents_of hot_clip = speech_latents_of tiny_clip"
  by (simp_all add: hot_clip_def text_latents_of_def speech_latents_of_def text_pooled_def
      speech_pooled_def fun_eq_iff)

text \<open>\<open>exp 100\<close> is beyond the largest \<^verbatim>\<open>float32\<close> value: the scale is \<open>+inf\<close>.\<close>

lemma float_max_less_exp_100: "float_max < exp (100::real)"
proof -
  have "(5 / 2 :: real) \<le> exp 1"
    using exp_lower_Taylor_quadratic[of "1::real"] by simp
  then have "(5 / 2 :: real) ^ 100 \<le> exp 1 ^ 100"
    by (intro power_mono) simp_all
  also have "\<dots> = exp (100::real)"
    using exp_of_nat_mult[of 100 "1::real"] by simp
  finally have "(5 / 2 :: real) ^ 100 \<le> exp 100" .
  moreover have "float_max < (5 / 2 :: real) ^ 100"
    by (simp add: float_max_def power_divide)
  ultimately show ?thesis by linarith
qed

lemma fexp_100: "fexp (Fin 100) = PInf"
  using float_max_less_exp_100 by (simp add: to_float_def)

section \<open>The loss on finite latents: lemmas\<close>






lemma matrix_of_nth: "i < n \<Longrightarrow> j < k \<Longrightarrow> matrix_of n k s ! i ! j = s i j"
  by (simp add: matrix_of_def)

lemma map_conv_upt: "map f xs = map (\<lambda>i. f (xs ! i)) [0..<length xs]"
  by (rule nth_equalityI) simp_all







lemma normalize_finite_rows:
  assumes "normalize M = map (map Fin) T"
  shows "\<forall>r\<in>set T. sumsq r \<le> 1"
proof
  fix r assume "r \<in> set T"
  then obtain k where k: "k < length T" "T ! k = r" by (auto simp: in_set_conv_nth)
  have "length (normalize M) = length T" by (simp add: assms)
  then have kM: "k < length M" using k by (simp add: normalize_def)
  have "normalize M ! k = map Fin (T ! k)" using k by (simp add: assms)
  then have "normalize_row (M ! k) = map Fin r" using kM k by (simp add: normalize_def)
  then have "l2norm r \<le> 1" by (rule normalize_row_finite)
  then show "sumsq r \<le> 1" by (rule sumsq_le_1)
qed

text \<open>Loss mode on one text latent and one speech latent.\<close>

lemma cross_entropy_single:
  "cross_entropy [[w]] [0] = Inr (if is_Fin w then Fin 0 else NaN)"
  by (cases w)
    (simp_all add: cross_entropy_def log_softmax_def fmaximum_def fsum_def fsub_def fmean_def)

lemma head_single:
  "head tmp (Suc 0) [u] [v] True
     = Inr (Loss (if is_Fin (scale (fexp tmp) (fdot u v)) then Fin 0 else NaN))"
  by (simp add: head_def einsum_id_jd_ij_def t_mat_def cross_entropy_single Let_def)

lemma scale_is_Fin:
  assumes "\<bar>d\<bar> \<le> 1"
  shows "is_Fin (scale (fexp (Fin t)) (Fin d)) \<longleftrightarrow> exp t \<le> float_max"
proof (cases "exp t \<le> float_max")
  case True
  then show ?thesis using scale_Fin[OF assms True] by simp
next
  case False
  then have "to_float (exp t) = PInf" by (simp add: to_float_def)
  then show ?thesis
    using False by (cases "0 < d") (simp_all add: scale_def)
qed

section \<open>Construction\<close>

text \<open>
  C4: the constructor gives the speech positional table \<open>num_speech_tokens\<close> rows, whatever
  \<open>speech_seq_len\<close> is, and the text positional table \<open>text_seq_len\<close> rows. With the
  defaults the speech table has 8192 rows, against a \<open>speech_seq_len\<close> of 250, and the
  text table has 200.
\<close>

theorem positional_table_sizes:
  "num_embeddings (speech_pos_emb (VoiceCLIP_init Transformer iv c)) = num_speech_tokens c
   \<and> length (weight (speech_pos_emb (VoiceCLIP_init Transformer iv c))) = num_speech_tokens c
   \<and> speech_pos_emb (VoiceCLIP_init Transformer iv (c\<lparr>speech_seq_len := n\<rparr>))
       = speech_pos_emb (VoiceCLIP_init Transformer iv c)
   \<and> num_embeddings (text_pos_emb (VoiceCLIP_init Transformer iv c)) = text_seq_len c
   \<and> length (weight (text_pos_emb (VoiceCLIP_init Transformer iv c))) = text_seq_len c
   \<and> num_embeddings (speech_pos_emb (VoiceCLIP_init Transformer iv default_config)) = 8192
   \<and> speech_seq_len default_config = 250
   \<and> num_embeddings (text_pos_emb (VoiceCLIP_init Transformer iv default_config)) = 200"
  by (simp add: VoiceCLIP_init_def nn_Embedding_def default_config_def)

section \<open>Pooling: properties\<close>

text \<open>
  C5: for a mask of the shape \<open>(b, L)\<close> of the encoded tensor whose entries are all true,
  \<open>masked_mean\<close> returns what the plain mean over the sequence axis returns.
\<close>

theorem masked_mean_all_true:
  assumes "map length msk = map length t" and "list_all (list_all (\<lambda>m. m)) msk"
  shows "masked_mean d t msk = mean_dim1 d t"
  using assms
proof (induction t msk rule: list_induct2')
  case (4 ex t mrow msk)
  then have IH: "masked_mean d t msk = mean_dim1 d t" by simp
  from 4 have len: "length mrow = length ex" and tr: "list_all (\<lambda>m. m) mrow" by simp_all
  show ?case
    using IH len
    by (simp add: masked_mean_def mean_dim1_def masked_fill_def sum_dim1_def mask_sum_def
        masked_fill_row_all_true[OF tr len] filter_all_true[OF tr] Let_def)
qed (simp_all add: masked_mean_def mean_dim1_def masked_fill_def sum_dim1_def mask_sum_def)

theorem masked_mean_all_true_witness:
  "map length [[True, True], [True, True]]
     = map length [[[Fin 1, Fin 2], [Fin 3, Fin 4]], [[Fin 5, Fin 6], [Fin 7, Fin 8]]]
   \<and> list_all (list_all (\<lambda>m. m)) [[True, True], [True, True]]
   \<and> masked_mean 2 [[[Fin 1, Fin 2], [Fin 3, Fin 4]], [[Fin 5, Fin 6], [Fin 7, Fin 8]]]
        [[True, True], [True, True]]
       = mean_dim1 2 [[[Fin 1, Fin 2], [Fin 3, Fin 4]], [[Fin 5, Fin 6], [Fin 7, Fin 8]]]"
  using masked_mean_all_true [of "[[True, True], [True, True]]"
      "[[[Fin 1, Fin 2], [Fin 3, Fin 4]], [[Fin 5, Fin 6], [Fin 7, Fin 8]]]" 2]
  by simp

text \<open>
  C6: where the mask has the shape of the encoded tensor and its row for example \<open>i\<close> is
  all false, \<open>masked_mean\<close> divides a zero sum by a zero count: every entry of the pooled
  row \<open>i\<close> is \<open>NaN\<close>. The function has no error result and no test of the count; it
  returns the row.
\<close>

theorem masked_mean_all_false:
  assumes "map length msk = map length t" and "i < length t"
    and "list_all Not (msk ! i)" and "list_all (\<lambda>v. length v = d) (t ! i)"
  shows "masked_mean d t msk ! i = replicate d NaN"
proof -
  have "i < length msk"
    using assms(1,2) map_eq_imp_length_eq[OF assms(1)] by simp
  then show ?thesis
    using assms
    by (simp add: masked_mean_nth sum_dim1_masked_out filter_all_false map_replicate)
qed

theorem masked_mean_all_false_witness:
  "map length [[True, False], [False, False]]
     = map length [[[Fin 1, Fin 2], [Fin 3, Fin 4]], [[Fin 5, Fin 6], [Fin 7, Fin 8]]]
   \<and> (1::nat) < length [[[Fin 1, Fin 2], [Fin 3, Fin 4]], [[Fin 5, Fin 6], [Fin 7, Fin 8]]]
   \<and> list_all Not ([[True, False], [False, False]] ! 1)
   \<and> list_all (\<lambda>v. length v = 2)
        ([[[Fin 1, Fin 2], [Fin 3, Fin 4]], [[Fin 5, Fin 6], [Fin 7, Fin 8]]] ! 1)
   \<and> masked_mean 2 [[[Fin 1, Fin 2], [Fin 3, Fin 4]], [[Fin 5, Fin 6], [Fin 7, Fin 8]]]
        [[True, False], [False, False]] ! 1
       = replicate 2 NaN"
  using masked_mean_all_false [of "[[True, False], [False, False]]"
      "[[[Fin 1, Fin 2], [Fin 3, Fin 4]], [[Fin 5, Fin 6], [Fin 7, Fin 8]]]" 1 2]
  by simp

text \<open>
  The pooled \<open>NaN\<close> reaches the output without an error: in the small model, with the
  mask of the first of two examples all false, score mode returns a \<open>NaN\<close> score for that
  example and the score of the other.
\<close>

lemma degenerate_mask_scores_example:
  "forward tiny_clip text2 speech2 (Some [[False], [True]]) False
     = Inr (Scores [NaN, Fin (exp 1)])"
proof -
  have "text_latents_of tiny_clip [[[Fin 1]], [[Fin (- 1)]]] (Some [[False], [True]])
      = [[NaN], [Fin (- 1)]]"
    by (simp add: text_latents_of_def text_pooled_def tiny_fields masked_mean_def
        masked_fill_def sum_dim1_def mask_sum_def vadd_def linear_def linear_row_def fdot_def
        fsum_def normalize_def normalize_row_def norm2_def fclamp_min_def normalize_eps_def)
  then show ?thesis
    using to_float_exp[OF exp_1_le_float_max]
    by (simp add: forward_embedded[OF tiny_embed_text2 tiny_embed_speech2]
        tiny_speech_latents2 head_def einsum_nd_nd_n_def fdot_def fsum_def scale_def
        tiny_fields Let_def)
qed

section \<open>The loss\<close>




text \<open>
  C7, as amended: for one text and one speech example whose lookups succeed, with a
  mask (if given) of the text's shape, encoders that keep the shape, finite latents and
  a finite temperature \<open>t\<close>, \<open>forward\<close> in loss mode raises nothing; it returns exactly 0
  when \<open>exp t\<close> is within the range of \<^verbatim>\<open>float32\<close>, and \<open>NaN\<close> when it is beyond.
\<close>

theorem single_pair_loss_zero:
  assumes "embed TextTokens TextPositions (text_emb self) (text_pos_emb self) text = Inr te"
    and "embed SpeechTokens SpeechPositions (speech_emb self) (speech_pos_emb self) speech_tokens
         = Inr se"
    and "shape_preserving (text_transformer self)"
    and "shape_preserving (speech_transformer self)"
    and "mask_fits text_mask text"
    and "length (ids text) = 1" and "length (ids speech_tokens) = 1"
    and "all_finite (text_latents_of self te text_mask)"
    and "all_finite (speech_latents_of self se)"
    and "temperature self = Fin t"
  shows "forward self text speech_tokens text_mask True
         = Inr (Loss (if exp t \<le> float_max then Fin 0 else NaN))"
proof -
  obtain T where T: "text_latents_of self te text_mask = map (map Fin) T"
    using assms(8) all_Fin_mat by (auto simp: all_finite_def)
  obtain S where S: "speech_latents_of self se = map (map Fin) S"
    using assms(9) all_Fin_mat by (auto simp: all_finite_def)
  have "length (text_pooled self te text_mask) = 1"
    using length_text_pooled[OF assms(3,5)] length_embed[OF assms(1)] assms(6) by simp
  then have "length (text_latents_of self te text_mask) = 1"
    by (simp add: text_latents_of_def)
  then have "length T = 1" by (simp add: T)
  then obtain a where a: "T = [a]" by (cases T) auto
  have "length (speech_pooled self se) = 1"
    using length_speech_pooled[OF assms(4)] length_embed[OF assms(2)] assms(7) by simp
  then have "length (speech_latents_of self se) = 1"
    by (simp add: speech_latents_of_def)
  then have "length S = 1" by (simp add: S)
  then obtain c where c: "S = [c]" by (cases S) auto
  have "\<forall>r\<in>set T. sumsq r \<le> 1"
    using T unfolding text_latents_of_def by (rule normalize_finite_rows)
  then have sa: "sumsq a \<le> 1" by (simp add: a)
  have "\<forall>r\<in>set S. sumsq r \<le> 1"
    using S unfolding speech_latents_of_def by (rule normalize_finite_rows)
  then have sc: "sumsq c \<le> 1" by (simp add: c)
  note d = fdot_Fin[OF sa sc]
  have "forward self text speech_tokens text_mask True
      = head (Fin t) (Suc 0) [map Fin a] [map Fin c] True"
    using assms(6,10) by (simp add: forward_embedded[OF assms(1,2)] T S a c)
  also have "\<dots> = Inr (Loss (if is_Fin (scale (fexp (Fin t)) (Fin (dot a c))) then Fin 0
      else NaN))"
    unfolding head_single d(1) ..
  finally show ?thesis
    unfolding scale_is_Fin[OF d(2)] .
qed

theorem single_pair_loss_zero_witness:
  "embed TextTokens TextPositions (text_emb tiny_clip) (text_pos_emb tiny_clip) text1
     = Inr [[[Fin (- 1)]]]
   \<and> embed SpeechTokens SpeechPositions (speech_emb tiny_clip) (speech_pos_emb tiny_clip) speech1
     = Inr [[[Fin 1], [Fin 1]]]
   \<and> shape_preserving (text_transformer tiny_clip)
   \<and> shape_preserving (speech_transformer tiny_clip)
   \<and> mask_fits (Some [[True]]) text1
   \<and> length (ids text1) = 1 \<and> length (ids speech1) = 1
   \<and> all_finite (text_latents_of tiny_clip [[[Fin (- 1)]]] (Some [[True]]))
   \<and> all_finite (speech_latents_of tiny_clip [[[Fin 1], [Fin 1]]])
   \<and> temperature tiny_clip = Fin 1
   \<and> exp 1 \<le> float_max
   \<and> forward tiny_clip text1 speech1 (Some [[True]]) True = Inr (Loss (Fin 0))"
proof -
  have m: "mask_fits (Some [[True]]) text1" by (simp add: mask_fits_def text1_def)
  have l1: "length (ids text1) = 1" by (simp add: text1_def)
  have l2: "length (ids speech1) = 1" by (simp add: speech1_def)
  have "text_latents_of tiny_clip [[[Fin (- 1)]]] (Some [[True]]) = [[Fin (- 1)]]"
    by (simp add: text_latents_of_def text_pooled_def tiny_fields masked_mean_def
        masked_fill_def sum_dim1_def mask_sum_def vadd_def linear_def linear_row_def fdot_def
        fsum_def normalize_def normalize_row_minus_1)
  then have T: "all_finite (text_latents_of tiny_clip [[[Fin (- 1)]]] (Some [[True]]))"
    by (simp add: all_finite_def)
  have "speech_latents_of tiny_clip [[[Fin 1], [Fin 1]]] = [[Fin 1]]"
    by (simp add: speech_latents_of_def speech_pooled_def tiny_fields mean_dim1_eq vadd_def
        linear_def linear_row_def fdot_def fsum_def normalize_def normalize_row_1)
  then have S: "all_finite (speech_latents_of tiny_clip [[[Fin 1], [Fin 1]]])"
    by (simp add: all_finite_def)
  have t: "temperature tiny_clip = Fin 1" by (simp add: tiny_fields)
  have r: "forward tiny_clip text1 speech1 (Some [[True]]) True = Inr (Loss (Fin 0))"
    using single_pair_loss_zero [OF tiny_embed_text1 tiny_embed_speech1 tiny_shape_preserving
        m l1 l2 T S t] exp_1_le_float_max
    by simp
  show ?thesis
    by (intro conjI tiny_embed_text1 tiny_embed_speech1 tiny_shape_preserving m l1 l2 T S t
        exp_1_le_float_max r)
qed

text \<open>
  C7 as stated fails: in the small model at temperature 100, the one text latent is
  \<open>[-1]\<close> and the one speech latent \<open>[1]\<close>, both finite; the scale \<open>exp 100\<close> is \<open>+inf\<close>, the
  one score is \<open>-inf\<close>, and the loss is \<open>NaN\<close>, not 0.
\<close>

theorem single_pair_hot_counterexample:
  "embed TextTokens TextPositions (text_emb hot_clip) (text_pos_emb hot_clip) text1
     = Inr [[[Fin (- 1)]]]
   \<and> embed SpeechTokens SpeechPositions (speech_emb hot_clip) (speech_pos_emb hot_clip) speech1
     = Inr [[[Fin 1], [Fin 1]]]
   \<and> text_latents_of hot_clip [[[Fin (- 1)]]] None = [[Fin (- 1)]]
   \<and> speech_latents_of hot_clip [[[Fin 1], [Fin 1]]] = [[Fin 1]]
   \<and> length (ids text1) = 1 \<and> length (ids speech1) = 1
   \<and> forward hot_clip text1 speech1 None True = Inr (Loss NaN)
   \<and> Loss NaN \<noteq> Loss (Fin 0)"
proof -
  have e1: "embed TextTokens TextPositions (text_emb hot_clip) (text_pos_emb hot_clip) text1
      = Inr [[[Fin (- 1)]]]"
    by (simp only: hot_fields tiny_embed_text1)
  have e2: "embed SpeechTokens SpeechPositions (speech_emb hot_clip) (speech_pos_emb hot_clip)
      speech1 = Inr [[[Fin 1], [Fin 1]]]"
    by (simp only: hot_fields tiny_embed_speech1)
  have T': "text_latents_of tiny_clip [[[Fin (- 1)]]] None = [[Fin (- 1)]]"
    by (simp add: text_latents_of_def text_pooled_def tiny_fields mean_dim1_eq
        vadd_def linear_def linear_row_def fdot_def fsum_def normalize_def
        normalize_row_minus_1)
  have S': "speech_latents_of tiny_clip [[[Fin 1], [Fin 1]]] = [[Fin 1]]"
    by (simp add: speech_latents_of_def speech_pooled_def tiny_fields mean_dim1_eq
        vadd_def linear_def linear_row_def fdot_def fsum_def normalize_def normalize_row_1)
  have T: "text_latents_of hot_clip [[[Fin (- 1)]]] None = [[Fin (- 1)]]"
    by (simp only: hot_fields T')
  have S: "speech_latents_of hot_clip [[[Fin 1], [Fin 1]]] = [[Fin 1]]"
    by (simp only: hot_fields S')
  have l1: "length (ids text1) = 1" by (simp add: text1_def)
  have l2: "length (ids speech1) = 1" by (simp add: speech1_def)
  have tf: "to_float (exp 100) = PInf"
    using float_max_less_exp_100 by (simp add: to_float_def)
  have f: "forward hot_clip text1 speech1 None True = Inr (Loss NaN)"
    by (simp add: forward_embedded[OF e1 e2] T' S' l1 hot_fields head_single tf fdot_def
        fsum_def scale_def)
  have n: "Loss NaN \<noteq> Loss (Fin 0)" by simp
  show ?thesis by (intro conjI e1 e2 T S l1 l2 f n)
qed

section \<open>The scores\<close>



section \<open>Normalization\<close>

text \<open>
  C3, as amended: a projected vector with finite entries \<open>p\<close> is normalized to a vector
  with finite entries: to the zero vector when the sum of the squares of \<open>p\<close> exceeds
  the largest \<^verbatim>\<open>float32\<close> value (the norm is then infinite), and to
  \<open>p / max(\<parallel>p\<parallel>, eps)\<close> otherwise, whose Euclidean norm is 1 when the norm of \<open>p\<close> is at
  least \<open>eps = 1e-12\<close> and \<open>\<parallel>p\<parallel> / eps < 1\<close> when it is smaller; this holds for either
  projection, text or speech.
\<close>

theorem latent_norm:
  assumes "linear_row l x = map Fin p"
  shows "\<exists>ys. normalize_row (linear_row l x) = map Fin ys
           \<and> ys = (if float_max < sumsq p then map (\<lambda>x. 0) p else normalized p)
           \<and> l2norm ys = (if float_max < sumsq p then 0
                          else if normalize_eps \<le> l2norm p then 1
                          else l2norm p / normalize_eps)"
proof (cases "float_max < sumsq p")
  case True
  then show ?thesis
    by (simp add: assms normalize_row_overflow l2norm_zeros del: map_map)
next
  case False
  then have "normalize_row (map Fin p) = map Fin (normalized p)"
    by (simp add: normalize_row_Fin)
  then show ?thesis
    using False by (simp add: assms l2norm_normalized)
qed

theorem latent_norm_witness:
  "linear_row \<lparr>in_features = 2, out_features = 2,
       lin_weight = [[Fin 1, Fin 0], [Fin 0, Fin 1]]\<rparr> [Fin 1, Fin 0] = map Fin [1, 0]
   \<and> (\<exists>ys. normalize_row (linear_row \<lparr>in_features = 2, out_features = 2,
              lin_weight = [[Fin 1, Fin 0], [Fin 0, Fin 1]]\<rparr> [Fin 1, Fin 0]) = map Fin ys
           \<and> ys = normalized [1, 0] \<and> l2norm ys = 1)"
proof -
  have a: "linear_row \<lparr>in_features = 2, out_features = 2,
      lin_weight = [[Fin 1, Fin 0], [Fin 0, Fin 1]]\<rparr> [Fin 1, Fin 0] = map Fin [1, 0]"
    by (simp add: linear_row_def fdot_def fsum_def)
  have b: "normalize_eps \<le> l2norm [1, 0]"
    by (simp add: normalize_eps_def l2norm_def sumsq_def)
  have c: "\<not> float_max < sumsq [1, 0]"
    using float_max_gt_1 by (simp add: sumsq_def)
  show ?thesis
    using latent_norm [OF a] a b c by simp
qed

text \<open>
  C3 as stated fails. The projection \<open>[[1, -1], [-1, 1]]\<close> maps the pooled vector
  \<open>[1, 1]\<close> to the zero vector, which \<^verbatim>\<open>F.normalize\<close> leaves at norm 0. From the
  input on: in the small model the speech tokens \<open>[0, 1]\<close> embed to \<open>1\<close> and \<open>-1\<close>, their
  mean is 0, and the speech latent is the zero vector.
\<close>

theorem zero_latent_counterexample:
  "norm2 (normalize_row
     (linear_row \<lparr>in_features = 2, out_features = 2,
        lin_weight = [[Fin 1, Fin (- 1)], [Fin (- 1), Fin 1]]\<rparr> [Fin 1, Fin 1])) \<noteq> Fin 1
   \<and> embed SpeechTokens SpeechPositions (speech_emb tiny_clip) (speech_pos_emb tiny_clip)
         speech_cancel = Inr [[[Fin 1], [Fin (- 1)]]]
   \<and> speech_latents_of tiny_clip [[[Fin 1], [Fin (- 1)]]] = [[Fin 0]]
   \<and> norm2 (speech_latents_of tiny_clip [[[Fin 1], [Fin (- 1)]]] ! 0) \<noteq> Fin 1"
proof -
  have a: "norm2 (normalize_row
     (linear_row \<lparr>in_features = 2, out_features = 2,
        lin_weight = [[Fin 1, Fin (- 1)], [Fin (- 1), Fin 1]]\<rparr> [Fin 1, Fin 1])) \<noteq> Fin 1"
    by (simp add: linear_row_def fdot_def fsum_def normalize_row_def norm2_def
        fclamp_min_def normalize_eps_def)
  have b: "embed SpeechTokens SpeechPositions (speech_emb tiny_clip) (speech_pos_emb tiny_clip)
      speech_cancel = Inr [[[Fin 1], [Fin (- 1)]]]"
    by (simp add: embed_eq tiny_fields speech_cancel_def in_range_def iadd_broadcast_def
        vadd_def eval_nat_numeral)
  have c: "speech_latents_of tiny_clip [[[Fin 1], [Fin (- 1)]]] = [[Fin 0]]"
    by (simp add: speech_latents_of_def speech_pooled_def tiny_fields mean_dim1_eq vadd_def
        linear_def linear_row_def fdot_def fsum_def normalize_def normalize_row_def norm2_def
        fclamp_min_def normalize_eps_def)
  have d: "norm2 (speech_latents_of tiny_clip [[[Fin 1], [Fin (- 1)]]] ! 0) \<noteq> Fin 1"
    by (simp add: c norm2_def fsum_def)
  show ?thesis by (intro conjI a b c d)
qed

text \<open>
  A projected vector need not be small to lose its norm: the squares of
  \<open>[3e19, 4e19]\<close> are beyond the largest \<^verbatim>\<open>float32\<close> value, the norm is \<open>+inf\<close>, and
  the latent is the zero vector.
\<close>

lemma overflowing_latent_example:
  "normalize_row [Fin (3 * 10 ^ 19), Fin (4 * 10 ^ 19)] = [Fin 0, Fin 0]"
proof -
  have "float_max < sumsq [3 * 10 ^ 19, 4 * 10 ^ 19]"
    by (simp add: float_max_def sumsq_def)
  then show ?thesis
    using normalize_row_overflow[of "[3 * 10 ^ 19, 4 * 10 ^ 19]"] by simp
qed

section \<open>Index errors\<close>

text \<open>
  C8, as amended: an input with a token id outside its table makes \<open>forward\<close> fail with
  an index error before any encoder runs: at the text content lookup when a text id is
  outside the text table; otherwise, the bad id being a speech id, at the speech
  content lookup when the text is no longer than the text positional table, and at the
  text positional lookup, which comes first, when it is longer.
\<close>

theorem invalid_id_raises_index_error:
  assumes "\<not> (ids_in_range (text_emb self) text \<and> ids_in_range (speech_emb self) speech_tokens)"
  shows "forward self text speech_tokens text_mask return_loss =
     Inl (IndexError
       (if \<not> ids_in_range (text_emb self) text then TextTokens
        else if num_embeddings (text_pos_emb self) < ncols text then TextPositions
        else SpeechTokens))"
  using assms by (simp add: forward_def embed_eq ids_in_range_def)

theorem invalid_id_raises_index_error_witness:
  "\<not> (ids_in_range (text_emb tiny_clip) text1 \<and> ids_in_range (speech_emb tiny_clip) speech_bad)
   \<and> forward tiny_clip text1 speech_bad None False = Inl (IndexError SpeechTokens)"
proof -
  have a: "\<not> (ids_in_range (text_emb tiny_clip) text1
      \<and> ids_in_range (speech_emb tiny_clip) speech_bad)"
    by (simp add: ids_in_range_def tiny_fields speech_bad_def in_range_def)
  have b: "ids_in_range (text_emb tiny_clip) text1"
    by (simp add: ids_in_range_def tiny_fields text1_def in_range_def)
  have c: "\<not> num_embeddings (text_pos_emb tiny_clip) < ncols text1"
    by (simp add: tiny_fields text1_def)
  show ?thesis
    using invalid_id_raises_index_error [OF a, of None False] a b c by simp
qed

text \<open>
  C8 as stated fails: with a speech id outside the speech table and a text longer than
  the text positional table, the call fails at the text positional lookup, not at a
  content lookup.
\<close>

theorem bad_speech_id_counterexample:
  "\<not> ids_in_range (speech_emb tiny_clip) speech_bad
   \<and> forward tiny_clip text_long speech_bad None False = Inl (IndexError TextPositions)
   \<and> forward tiny_clip text_long speech_bad None False \<noteq> Inl (IndexError SpeechTokens)
   \<and> forward tiny_clip text_long speech_bad None False \<noteq> Inl (IndexError TextTokens)"
  by (simp add: forward_def embed_eq ids_in_range_def tiny_fields speech_bad_def text_long_def
      in_range_def)

text \<open>
  C10: on a constructed model the text positional lookup of a sequence of length \<open>L\<close>
  fails exactly when \<open>L > text_seq_len\<close>, and the speech positional lookup exactly when
  \<open>L > num_speech_tokens\<close>. So \<open>forward\<close> fails at the text positional lookup for a
  text with valid ids that is longer than \<open>text_seq_len\<close>, and does not fail at the
  speech positional lookup for any speech of length at most \<open>num_speech_tokens\<close>,
  longer than \<open>speech_seq_len\<close> or not.
\<close>

theorem positional_bounds:
  "(embedding_1d (text_pos_emb (VoiceCLIP_init Transformer iv c)) (arange L) = None
      \<longleftrightarrow> text_seq_len c < L)
   \<and> (embedding_1d (speech_pos_emb (VoiceCLIP_init Transformer iv c)) (arange L) = None
      \<longleftrightarrow> num_speech_tokens c < L)
   \<and> (ids_in_range (text_emb (VoiceCLIP_init Transformer iv c)) text
        \<and> text_seq_len c < ncols text
      \<longrightarrow> forward (VoiceCLIP_init Transformer iv c) text speech_tokens text_mask return_loss
            = Inl (IndexError TextPositions))
   \<and> (ncols speech_tokens \<le> num_speech_tokens c
      \<longrightarrow> forward (VoiceCLIP_init Transformer iv c) text speech_tokens text_mask return_loss
            \<noteq> Inl (IndexError SpeechPositions))"
proof -
  let ?M = "VoiceCLIP_init Transformer iv c"
  have t: "num_embeddings (text_pos_emb ?M) = text_seq_len c"
    and s: "num_embeddings (speech_pos_emb ?M) = num_speech_tokens c"
    by (simp_all add: VoiceCLIP_init_def nn_Embedding_def)
  have h: "head x b T S r \<noteq> Inl (IndexError site)" for x b T S r site
    by (auto simp: head_def Let_def cross_entropy_def einsum_nd_nd_n_def
        split: sum.splits if_splits)
  show ?thesis
    using h by (auto simp: embedding_1d_arange t s forward_def embed_eq ids_in_range_def
        split: sum.splits)
qed

theorem positional_bounds_witness:
  "ids_in_range (text_emb (VoiceCLIP_init identity_encoder tiny_values tiny_config)) text_long
   \<and> text_seq_len tiny_config < ncols text_long
   \<and> ncols speech2 \<le> num_speech_tokens tiny_config
   \<and> speech_seq_len tiny_config < ncols speech2
   \<and> forward (VoiceCLIP_init identity_encoder tiny_values tiny_config) text_long speech2 None True
       = Inl (IndexError TextPositions)
   \<and> forward (VoiceCLIP_init identity_encoder tiny_values tiny_config) text_long speech2 None True
       \<noteq> Inl (IndexError SpeechPositions)
   \<and> embedding_1d (speech_pos_emb (VoiceCLIP_init identity_encoder tiny_values tiny_config))
       (arange (ncols speech2)) \<noteq> None"
proof -
  have a: "ids_in_range (text_emb (VoiceCLIP_init identity_encoder tiny_values tiny_config))
      text_long"
    using tiny_fields(1)
    by (simp add: tiny_clip_def ids_in_range_def text_long_def in_range_def)
  have b: "text_seq_len tiny_config < ncols text_long"
    by (simp add: tiny_config_def text_long_def)
  have c: "ncols speech2 \<le> num_speech_tokens tiny_config"
    by (simp add: tiny_config_def speech2_def)
  have d: "speech_seq_len tiny_config < ncols speech2"
    by (simp add: tiny_config_def speech2_def)
  show ?thesis
    using positional_bounds [of identity_encoder tiny_values tiny_config "ncols speech2"
        text_long speech2 None True] a b c d
    by simp
qed

section \<open>Purity\<close>

text \<open>
  C9: a forward pass on a store that holds the model's parameters returns what the
  value-level \<open>forward\<close> returns on the weights read from that store; it leaves every
  cell the store had, the parameters among them, as it was (the in-place additions
  write to the cells the lookups have just made); so the weights read after the call
  are the weights read before it, and a second call with the same inputs returns the
  same output.
\<close>

theorem forward_leaves_weights:
  assumes "allocated self s"
  shows "fst (forward_st self text speech_tokens text_mask return_loss s)
           = forward (load s self) text speech_tokens text_mask return_loss
       \<and> extends s (snd (forward_st self text speech_tokens text_mask return_loss s))
       \<and> load (snd (forward_st self text speech_tokens text_mask return_loss s)) self
           = load s self
       \<and> fst (forward_st self text speech_tokens text_mask return_loss
                (snd (forward_st self text speech_tokens text_mask return_loss s)))
           = fst (forward_st self text speech_tokens text_mask return_loss s)"
proof -
  let ?s' = "snd (forward_st self text speech_tokens text_mask return_loss s)"
  have r: "fst (forward_st self text speech_tokens text_mask return_loss s)
           = forward (load s self) text speech_tokens text_mask return_loss"
    and e: "extends s ?s'"
    using forward_st_refines[OF assms] by simp_all
  have l: "load ?s' self = load s self" using e assms by (rule extends_load)
  have a: "allocated self ?s'" using assms e by (rule allocated_extends)
  have "fst (forward_st self text speech_tokens text_mask return_loss ?s')
      = forward (load ?s' self) text speech_tokens text_mask return_loss"
    using forward_st_refines[OF a] by simp
  then show ?thesis using r e l by simp
qed

theorem forward_leaves_weights_witness:
  "allocated tiny_ref tiny_store
   \<and> (fst (forward_st tiny_ref text2 speech2 None False tiny_store)
           = forward (load tiny_store tiny_ref) text2 speech2 None False
       \<and> extends tiny_store (snd (forward_st tiny_ref text2 speech2 None False tiny_store))
       \<and> load (snd (forward_st tiny_ref text2 speech2 None False tiny_store)) tiny_ref
           = load tiny_store tiny_ref
       \<and> fst (forward_st tiny_ref text2 speech2 None False
                (snd (forward_st tiny_ref text2 speech2 None False tiny_store)))
           = fst (forward_st tiny_ref text2 speech2 None False tiny_store))"
proof -
  have a: "allocated tiny_ref tiny_store"
    by (simp add: allocated_def parameters_def tiny_ref_def tiny_store_def)
  show ?thesis
    by (rule conjI [OF a forward_leaves_weights [OF a]])
qed

end
